theory Spec2Isabelle
  imports Main "HOL-Library.Word"
begin

unbundle bit_operations_syntax

section \<open>Machine types\<close>

type_synonym u8 = "8 word"
type_synonym u32 = "32 word"
type_synonym u64 = "64 word"

section \<open>The minethd constructor: choice of the worker entry point\<close>

text \<open>
  The member functions a worker thread can be started on. \<open>double_work_main\<close>,
  \<open>quad_work_main\<close>, \<open>pent_work_main\<close> and \<open>hex_work_main\<close> call
  \<open>multiway_work_main\<close> with N = 2, 4, 5 and 6; \<open>work_main\<close> hashes one nonce
  per round.
\<close>

datatype work_entry = work_main | double_work_main | quad_work_main | pent_work_main | hex_work_main

text \<open>The \<open>switch (iMultiway)\<close> of \<open>minethd::minethd\<close>; \<open>iMultiway\<close> is a C \<open>int\<close>.\<close>

definition minethd_entry :: "int \<Rightarrow> work_entry" where
  "minethd_entry iMultiway =
     (if iMultiway = 6 then hex_work_main
      else if iMultiway = 5 then pent_work_main
      else if iMultiway = 4 then quad_work_main
      else if iMultiway = 2 then double_work_main
      else work_main)"

text \<open>The width N each entry point hashes with.\<close>

fun entry_width :: "work_entry \<Rightarrow> nat" where
  "entry_width work_main = 1"
| "entry_width double_work_main = 2"
| "entry_width quad_work_main = 4"
| "entry_width pent_work_main = 5"
| "entry_width hex_work_main = 6"

section \<open>Scratchpad allocation and the self test\<close>

text \<open>The values of \<open>jconf::GetSlowMemSetting()\<close>.\<close>

datatype slow_mem_cfg = never_use | no_mlck | print_warning | always_use | unknown_value

text \<open>A \<open>cryptonight_ctx*\<close> is \<open>None\<close> when it is the null pointer.\<close>

type_synonym cryptonight_ctx = nat

text \<open>What \<open>printer::print_msg\<close> is asked to print, with the \<open>msg.warning\<close> it formats.\<close>

datatype log_msg =
    Memory_alloc_failed "string option"
  | Memory_init_error string
  | Self_test_failed

text \<open>
  The collaborators of this file that live in the crypto library and in the
  configuration: they are parameters of the model. \<open>'h\<close> is the state of the operating
  system's memory, which decides what an allocation returns. \<open>cryptonight_alloc_ctx\<close>
  takes \<open>use_fast_mem\<close>, \<open>use_mlock\<close> and whether a \<open>msg\<close> pointer is passed, and gives the
  context and the warning it left in \<open>msg\<close>. A kernel takes the input, the length of one
  input, the output buffer and the context(s), and gives the output buffer it leaves.
\<close>

record 'h platform =
  GetSlowMemSetting :: slow_mem_cfg
  cryptonight_init :: "nat \<Rightarrow> nat \<Rightarrow> nat \<times> string option"
  cryptonight_alloc_ctx :: "nat \<Rightarrow> nat \<Rightarrow> bool \<Rightarrow> 'h \<Rightarrow> (cryptonight_ctx option \<times> string option) \<times> 'h"
  cryptonight_free_ctx :: "cryptonight_ctx option \<Rightarrow> 'h \<Rightarrow> 'h"
  cryptonight_hash :: "u8 list \<Rightarrow> nat \<Rightarrow> u8 list \<Rightarrow> cryptonight_ctx option \<Rightarrow> u8 list"
  cryptonight_double_hash :: "u8 list \<Rightarrow> nat \<Rightarrow> u8 list \<Rightarrow> cryptonight_ctx option list \<Rightarrow> u8 list"
  cryptonight_quad_hash :: "u8 list \<Rightarrow> nat \<Rightarrow> u8 list \<Rightarrow> cryptonight_ctx option list \<Rightarrow> u8 list"
  cryptonight_pent_hash :: "u8 list \<Rightarrow> nat \<Rightarrow> u8 list \<Rightarrow> cryptonight_ctx option list \<Rightarrow> u8 list"
  cryptonight_hex_hash :: "u8 list \<Rightarrow> nat \<Rightarrow> u8 list \<Rightarrow> cryptonight_ctx option list \<Rightarrow> u8 list"

text \<open>The memory and the console, which the functions below change.\<close>

record 'h sys =
  heap :: 'h
  console :: "log_msg list"

definition print_msg :: "log_msg \<Rightarrow> 'h sys \<Rightarrow> 'h sys" where
  "print_msg m s = s\<lparr>console := console s @ [m]\<rparr>"

text \<open>One call of \<open>cryptonight_alloc_ctx\<close> on the current memory.\<close>

definition alloc_ctx :: "'h platform \<Rightarrow> nat \<Rightarrow> nat \<Rightarrow> bool \<Rightarrow> 'h sys
    \<Rightarrow> (cryptonight_ctx option \<times> string option) \<times> 'h sys" where
  "alloc_ctx p use_fast_mem use_mlock with_msg s =
     (case cryptonight_alloc_ctx p use_fast_mem use_mlock with_msg (heap s) of
        (r, h) \<Rightarrow> (r, s\<lparr>heap := h\<rparr>))"

text \<open>\<open>minethd_alloc_ctx\<close>: one branch for each memory setting.\<close>

definition minethd_alloc_ctx :: "'h platform \<Rightarrow> 'h sys \<Rightarrow> cryptonight_ctx option \<times> 'h sys" where
  "minethd_alloc_ctx p s =
     (case GetSlowMemSetting p of
        never_use \<Rightarrow>
          (case alloc_ctx p 1 1 True s of
             ((ctx, warning), s1) \<Rightarrow>
               (ctx, if ctx = None then print_msg (Memory_alloc_failed warning) s1 else s1))
      | no_mlck \<Rightarrow>
          (case alloc_ctx p 1 0 True s of
             ((ctx, warning), s1) \<Rightarrow>
               (ctx, if ctx = None then print_msg (Memory_alloc_failed warning) s1 else s1))
      | print_warning \<Rightarrow>
          (case alloc_ctx p 1 1 True s of
             ((ctx, warning), s1) \<Rightarrow>
               (let s2 = (if warning \<noteq> None then print_msg (Memory_alloc_failed warning) s1 else s1)
                in if ctx = None
                   then (case alloc_ctx p 0 0 False s2 of ((ctx', _), s3) \<Rightarrow> (ctx', s3))
                   else (ctx, s2)))
      | always_use \<Rightarrow>
          (case alloc_ctx p 0 0 False s of ((ctx, _), s1) \<Rightarrow> (ctx, s1))
      | unknown_value \<Rightarrow> (None, s))"

text \<open>\<open>for (j = 0; j < i; j++) cryptonight_free_ctx(ctx[j])\<close>\<close>

definition free_ctxs :: "'h platform \<Rightarrow> cryptonight_ctx option list \<Rightarrow> 'h sys \<Rightarrow> 'h sys" where
  "free_ctxs p ctx s = s\<lparr>heap := fold (cryptonight_free_ctx p) ctx (heap s)\<rparr>"

text \<open>
  The allocation loop of \<open>self_test\<close>: \<open>n\<close> contexts are still to allocate, \<open>ctx\<close> holds the
  ones allocated so far. A null context frees those and gives up.
\<close>

fun alloc_loop :: "'h platform \<Rightarrow> nat \<Rightarrow> cryptonight_ctx option list \<Rightarrow> 'h sys
    \<Rightarrow> cryptonight_ctx option list option \<times> 'h sys" where
  "alloc_loop p 0 ctx s = (Some ctx, s)"
| "alloc_loop p (Suc n) ctx s =
     (case minethd_alloc_ctx p s of
        (None, s1) \<Rightarrow> (None, free_ctxs p ctx s1)
      | (Some c, s1) \<Rightarrow> alloc_loop p n (ctx @ [Some c]) s1)"

text \<open>A C string literal as bytes, and \<open>memcmp(a, b, n) == 0\<close>.\<close>

definition bytes_of :: "string \<Rightarrow> u8 list" where
  "bytes_of cs = map of_char cs"

definition memcmp_eq :: "u8 list \<Rightarrow> u8 list \<Rightarrow> nat \<Rightarrow> bool" where
  "memcmp_eq a b n = (take n a = take n b)"

text \<open>The test inputs and the expected digests, as the string literals of \<open>self_test\<close>.\<close>

definition test_input :: string where
  "test_input = ''This is a test''"

definition double_input :: string where
  "double_input = ''The quick brown fox jumps over the lazy dogThe quick brown fox jumps over the lazy log''"

definition quad_input :: string where
  "quad_input = ''This is a testThis is a testThis is a testThis is a test''"

definition pent_input :: string where
  "pent_input = ''This is a testThis is a testThis is a testThis is a testThis is a test''"

definition hex_input :: string where
  "hex_input = ''This is a testThis is a testThis is a testThis is a testThis is a testThis is a test''"

definition expected_hash :: "u8 list" where
  "expected_hash =
     [0xa0, 0x84, 0xf0, 0x1d, 0x14, 0x37, 0xa0, 0x9c, 0x69, 0x85, 0x40, 0x1b, 0x60, 0xd4, 0x35, 0x54,
      0xae, 0x10, 0x58, 0x02, 0xc5, 0xf5, 0xd8, 0xa9, 0xb3, 0x25, 0x36, 0x49, 0xc0, 0xbe, 0x66, 0x05]"

definition expected_double :: "u8 list" where
  "expected_double =
     [0x3e, 0xbb, 0x7f, 0x9f, 0x7d, 0x27, 0x3d, 0x7c, 0x31, 0x8d, 0x86, 0x94, 0x77, 0x55, 0x0c, 0xc8,
      0x00, 0xcf, 0xb1, 0x1b, 0x0c, 0xad, 0xb7, 0xff, 0xbd, 0xf6, 0xf8, 0x9f, 0x3a, 0x47, 0x1c, 0x59]
    @ [0xb4, 0x77, 0xd5, 0x02, 0xe4, 0xd8, 0x48, 0x7f, 0x42, 0xdf, 0xe3, 0x8e, 0xed, 0x73, 0x81, 0x7a,
      0xda, 0x91, 0xb7, 0xe2, 0x63, 0xd2, 0x91, 0x71, 0xb6, 0x5c, 0x44, 0x3a, 0x01, 0x2a, 0x41, 0x22]"

definition expected_quad :: "u8 list" where
  "expected_quad =
     [0xa0, 0x84, 0xf0, 0x1d, 0x14, 0x37, 0xa0, 0x9c, 0x69, 0x85, 0x40, 0x1b, 0x60, 0xd4, 0x35, 0x54,
      0xae, 0x10, 0x58, 0x02, 0xc5, 0xf5, 0xd8, 0xa9, 0xb3, 0x25, 0x36, 0x49, 0xc0, 0xbe, 0x66, 0x05]
    @ [0xa0, 0x84, 0xf0, 0x1d, 0x14, 0x37, 0xa0, 0x9c, 0x69, 0x85, 0x40, 0x1b, 0x60, 0xd4, 0x35, 0x54,
      0xae, 0x10, 0x58, 0x02, 0xc5, 0xf5, 0xd8, 0xa9, 0xb3, 0x25, 0x36, 0x49, 0xc0, 0xbe, 0x66, 0x05]
    @ [0xa0, 0x84, 0xf0, 0x1d, 0x14, 0x37, 0xa0, 0x9c, 0x69, 0x85, 0x40, 0x1b, 0x60, 0xd4, 0x35, 0x54,
      0xae, 0x10, 0x58, 0x02, 0xc5, 0xf5, 0xd8, 0xa9, 0xb3, 0x25, 0x36, 0x49, 0xc0, 0xbe, 0x66, 0x05]
    @ [0xa0, 0x84, 0xf0, 0x1d, 0x14, 0x37, 0xa0, 0x9c, 0x69, 0x85, 0x40, 0x1b, 0x60, 0xd4, 0x35, 0x54,
      0xae, 0x10, 0x58, 0x02, 0xc5, 0xf5, 0xd8, 0xa9, 0xb3, 0x25, 0x36, 0x49, 0xc0, 0xbe, 0x66, 0x05]"

definition expected_pent :: "u8 list" where
  "expected_pent =
     [0xa0, 0x84, 0xf0, 0x1d, 0x14, 0x37, 0xa0, 0x9c, 0x69, 0x85, 0x40, 0x1b, 0x60, 0xd4, 0x35, 0x54,
      0xae, 0x10, 0x58, 0x02, 0xc5, 0xf5, 0xd8, 0xa9, 0xb3, 0x25, 0x36, 0x49, 0xc0, 0xbe, 0x66, 0x05]
    @ [0xa0, 0x84, 0xf0, 0x1d, 0x14, 0x37, 0xa0, 0x9c, 0x69, 0x85, 0x40, 0x1b, 0x60, 0xd4, 0x35, 0x54,
      0xae, 0x10, 0x58, 0x02, 0xc5, 0xf5, 0xd8, 0xa9, 0xb3, 0x25, 0x36, 0x49, 0xc0, 0xbe, 0x66, 0x05]
    @ [0xa0, 0x84, 0xf0, 0x1d, 0x14, 0x37, 0xa0, 0x9c, 0x69, 0x85, 0x40, 0x1b, 0x60, 0xd4, 0x35, 0x54,
      0xae, 0x10, 0x58, 0x02, 0xc5, 0xf5, 0xd8, 0xa9, 0xb3, 0x25, 0x36, 0x49, 0xc0, 0xbe, 0x66, 0x05]
    @ [0xa0, 0x84, 0xf0, 0x1d, 0x14, 0x37, 0xa0, 0x9c, 0x69, 0x85, 0x40, 0x1b, 0x60, 0xd4, 0x35, 0x54,
      0xae, 0x10, 0x58, 0x02, 0xc5, 0xf5, 0xd8, 0xa9, 0xb3, 0x25, 0x36, 0x49, 0xc0, 0xbe, 0x66, 0x05]
    @ [0xa0, 0x84, 0xf0, 0x1d, 0x14, 0x37, 0xa0, 0x9c, 0x69, 0x85, 0x40, 0x1b, 0x60, 0xd4, 0x35, 0x54,
      0xae, 0x10, 0x58, 0x02, 0xc5, 0xf5, 0xd8, 0xa9, 0xb3, 0x25, 0x36, 0x49, 0xc0, 0xbe, 0x66, 0x05]"

definition expected_hex :: "u8 list" where
  "expected_hex =
     [0xa0, 0x84, 0xf0, 0x1d, 0x14, 0x37, 0xa0, 0x9c, 0x69, 0x85, 0x40, 0x1b, 0x60, 0xd4, 0x35, 0x54,
      0xae, 0x10, 0x58, 0x02, 0xc5, 0xf5, 0xd8, 0xa9, 0xb3, 0x25, 0x36, 0x49, 0xc0, 0xbe, 0x66, 0x05]
    @ [0xa0, 0x84, 0xf0, 0x1d, 0x14, 0x37, 0xa0, 0x9c, 0x69, 0x85, 0x40, 0x1b, 0x60, 0xd4, 0x35, 0x54,
      0xae, 0x10, 0x58, 0x02, 0xc5, 0xf5, 0xd8, 0xa9, 0xb3, 0x25, 0x36, 0x49, 0xc0, 0xbe, 0x66, 0x05]
    @ [0xa0, 0x84, 0xf0, 0x1d, 0x14, 0x37, 0xa0, 0x9c, 0x69, 0x85, 0x40, 0x1b, 0x60, 0xd4, 0x35, 0x54,
      0xae, 0x10, 0x58, 0x02, 0xc5, 0xf5, 0xd8, 0xa9, 0xb3, 0x25, 0x36, 0x49, 0xc0, 0xbe, 0x66, 0x05]
    @ [0xa0, 0x84, 0xf0, 0x1d, 0x14, 0x37, 0xa0, 0x9c, 0x69, 0x85, 0x40, 0x1b, 0x60, 0xd4, 0x35, 0x54,
      0xae, 0x10, 0x58, 0x02, 0xc5, 0xf5, 0xd8, 0xa9, 0xb3, 0x25, 0x36, 0x49, 0xc0, 0xbe, 0x66, 0x05]
    @ [0xa0, 0x84, 0xf0, 0x1d, 0x14, 0x37, 0xa0, 0x9c, 0x69, 0x85, 0x40, 0x1b, 0x60, 0xd4, 0x35, 0x54,
      0xae, 0x10, 0x58, 0x02, 0xc5, 0xf5, 0xd8, 0xa9, 0xb3, 0x25, 0x36, 0x49, 0xc0, 0xbe, 0x66, 0x05]
    @ [0xa0, 0x84, 0xf0, 0x1d, 0x14, 0x37, 0xa0, 0x9c, 0x69, 0x85, 0x40, 0x1b, 0x60, 0xd4, 0x35, 0x54,
      0xae, 0x10, 0x58, 0x02, 0xc5, 0xf5, 0xd8, 0xa9, 0xb3, 0x25, 0x36, 0x49, 0xc0, 0xbe, 0x66, 0x05]"

text \<open>
  \<open>minethd::self_test\<close>. \<open>out\<close> is the 192-byte buffer on the stack, with whatever it holds
  at entry. The result is the returned flag and the memory and console left behind.
\<close>

definition self_test :: "'h platform \<Rightarrow> u8 list \<Rightarrow> 'h sys \<Rightarrow> bool \<times> 'h sys" where
  "self_test p out s =
     (case (case GetSlowMemSetting p of
              never_use \<Rightarrow> Some (cryptonight_init p 1 1, True)
            | no_mlck \<Rightarrow> Some (cryptonight_init p 1 0, True)
            | print_warning \<Rightarrow> Some (cryptonight_init p 1 1, False)
            | always_use \<Rightarrow> Some (cryptonight_init p 0 0, False)
            | unknown_value \<Rightarrow> None) of
        None \<Rightarrow> (False, s)
      | Some ((res, warning), fatal) \<Rightarrow>
          (let s1 = (case warning of None \<Rightarrow> s | Some w \<Rightarrow> print_msg (Memory_init_error w) s)
           in if res = 0 \<and> fatal then (False, s1)
              else (case alloc_loop p 6 [] s1 of
                      (None, s2) \<Rightarrow> (False, s2)
                    | (Some ctx, s2) \<Rightarrow>
                        (let out1 = cryptonight_hash p (bytes_of test_input) 14 out (ctx ! 0);
                             bResult1 = memcmp_eq out1 expected_hash 32;
                             out2 = cryptonight_double_hash p (bytes_of double_input) 43 out1 ctx;
                             bResult2 = (bResult1 \<and> memcmp_eq out2 expected_double 64);
                             out3 = cryptonight_quad_hash p (bytes_of quad_input) 14 out2 ctx;
                             bResult3 = (bResult2 \<and> memcmp_eq out3 expected_quad 128);
                             out4 = cryptonight_pent_hash p (bytes_of pent_input) 14 out3 ctx;
                             bResult4 = (bResult3 \<and> memcmp_eq out4 expected_pent 160);
                             out5 = cryptonight_hex_hash p (bytes_of hex_input) 14 out4 ctx;
                             bResult = (bResult4 \<and> memcmp_eq out5 expected_hex 192);
                             s3 = free_ctxs p ctx s2
                         in (bResult, if \<not> bResult then print_msg Self_test_failed s3 else s3)))))"

text \<open>
  The words of the specification about \<open>self_test\<close>. \<open>after_init\<close> is the console and
  memory once the warning of \<open>cryptonight_init\<close> is printed; \<open>nth_alloc p i s\<close> is what the
  call number \<open>i\<close> of \<open>minethd_alloc_ctx\<close> returns when the calls are made one after the
  other from \<open>s\<close>; \<open>kernels_match\<close> says that each of the five kernels leaves its expected
  digest at the start of the output buffer.
\<close>

definition after_init :: "'h platform \<Rightarrow> 'h sys \<Rightarrow> 'h sys" where
  "after_init p s =
     (case snd (case GetSlowMemSetting p of
                  never_use \<Rightarrow> cryptonight_init p 1 1
                | no_mlck \<Rightarrow> cryptonight_init p 1 0
                | print_warning \<Rightarrow> cryptonight_init p 1 1
                | always_use \<Rightarrow> cryptonight_init p 0 0
                | unknown_value \<Rightarrow> (0, None)) of
        None \<Rightarrow> s
      | Some w \<Rightarrow> print_msg (Memory_init_error w) s)"

primrec after_allocs :: "'h platform \<Rightarrow> nat \<Rightarrow> 'h sys \<Rightarrow> 'h sys" where
  "after_allocs p 0 s = s"
| "after_allocs p (Suc n) s = after_allocs p n (snd (minethd_alloc_ctx p s))"

definition nth_alloc :: "'h platform \<Rightarrow> nat \<Rightarrow> 'h sys \<Rightarrow> cryptonight_ctx option" where
  "nth_alloc p i s = fst (minethd_alloc_ctx p (after_allocs p i s))"

definition kernels_match :: "'h platform \<Rightarrow> u8 list \<Rightarrow> cryptonight_ctx option list \<Rightarrow> bool" where
  "kernels_match p out ctx =
     (let out1 = cryptonight_hash p (bytes_of test_input) 14 out (ctx ! 0);
          out2 = cryptonight_double_hash p (bytes_of double_input) 43 out1 ctx;
          out3 = cryptonight_quad_hash p (bytes_of quad_input) 14 out2 ctx;
          out4 = cryptonight_pent_hash p (bytes_of pent_input) 14 out3 ctx;
          out5 = cryptonight_hex_hash p (bytes_of hex_input) 14 out4 ctx
      in take 32 out1 = expected_hash \<and> take 64 out2 = expected_double
       \<and> take 128 out3 = expected_quad \<and> take 160 out4 = expected_pent
       \<and> take 192 out5 = expected_hex)"

text \<open>
  A platform for the examples: no huge pages (the initialisation and every huge-page
  allocation fail with a warning), regular pages always there (the memory state counts
  the contexts handed out), kernels that give the expected digests.
\<close>

definition example_platform :: "slow_mem_cfg \<Rightarrow> nat platform" where
  "example_platform mode =
     \<lparr>GetSlowMemSetting = mode,
      cryptonight_init = (\<lambda>use_fast_mem use_mlock. (0, Some ''huge pages are not reserved'')),
      cryptonight_alloc_ctx = (\<lambda>use_fast_mem use_mlock with_msg h.
        if use_fast_mem = 1 then ((None, if with_msg then Some ''mmap failed'' else None), h)
        else ((Some (Suc h), None), Suc h)),
      cryptonight_free_ctx = (\<lambda>ctx h. h),
      cryptonight_hash = (\<lambda>input len out ctx. expected_hash @ drop 32 out),
      cryptonight_double_hash = (\<lambda>input len out ctx. expected_double @ drop 64 out),
      cryptonight_quad_hash = (\<lambda>input len out ctx. expected_quad @ drop 128 out),
      cryptonight_pent_hash = (\<lambda>input len out ctx. expected_pent @ drop 160 out),
      cryptonight_hex_hash = (\<lambda>input len out ctx. expected_hex @ drop 192 out)\<rparr>"

section \<open>Telemetry\<close>

text \<open>
  Modelled from the spec: \<open>iBucketSize\<close> and \<open>iBucketMask\<close> are constants of \<open>minethd.h\<close>,
  which is not among the sources. The ring has \<open>2^k\<close> entries and the mask is the size
  less one; the exponent \<open>k\<close> is a parameter of the model.
\<close>

definition iBucketSize :: "nat \<Rightarrow> nat" where
  "iBucketSize k = 2 ^ k"

definition iBucketMask :: "nat \<Rightarrow> u64" where
  "iBucketMask k = 2 ^ k - 1"

text \<open>
  The members of \<open>telemetry\<close>: one row of hash counts and one of timestamps for each
  thread, and for each thread the index of the slot written next.
\<close>

record telemetry =
  ppHashCounts :: "u64 list list"
  ppTimestamps :: "u64 list list"
  iBucketTop :: "u32 list"

text \<open>
  One pass of the loop of the constructor, for thread \<open>i\<close>. \<open>new uint64_t[iBucketSize]\<close>
  gives storage that nothing has initialised: \<open>new_counts i\<close> and \<open>new_stamps i\<close> are what
  the two rows of thread \<open>i\<close> hold when they are handed out. Both \<open>memset\<close> calls are on
  row 0.
\<close>

definition telemetry_alloc_row :: "nat \<Rightarrow> (nat \<Rightarrow> u64 list) \<Rightarrow> (nat \<Rightarrow> u64 list) \<Rightarrow> nat
    \<Rightarrow> telemetry \<Rightarrow> telemetry" where
  "telemetry_alloc_row k new_counts new_stamps i t =
     (let t1 = t\<lparr>ppHashCounts := (ppHashCounts t)[i := new_counts i]\<rparr>;
          t2 = t1\<lparr>ppTimestamps := (ppTimestamps t1)[i := new_stamps i]\<rparr>;
          t3 = t2\<lparr>iBucketTop := (iBucketTop t2)[i := 0]\<rparr>;
          t4 = t3\<lparr>ppHashCounts := (ppHashCounts t3)[0 := replicate (iBucketSize k) 0]\<rparr>
      in t4\<lparr>ppTimestamps := (ppTimestamps t4)[0 := replicate (iBucketSize k) 0]\<rparr>)"

text \<open>
  \<open>telemetry::telemetry(iThd)\<close>. The rows are not allocated before the loop, and
  \<open>new_top\<close> is what the fresh \<open>iBucketTop\<close> array holds.
\<close>

definition telemetry_ctor :: "nat \<Rightarrow> (nat \<Rightarrow> u64 list) \<Rightarrow> (nat \<Rightarrow> u64 list) \<Rightarrow> (nat \<Rightarrow> u32)
    \<Rightarrow> nat \<Rightarrow> telemetry" where
  "telemetry_ctor k new_counts new_stamps new_top iThd =
     fold (telemetry_alloc_row k new_counts new_stamps) [0..<iThd]
       \<lparr>ppHashCounts = replicate iThd [], ppTimestamps = replicate iThd [],
        iBucketTop = map new_top [0..<iThd]\<rparr>"

text \<open>
  \<open>telemetry::push_perf_value\<close>
\<close>

definition push_perf_value :: "nat \<Rightarrow> nat \<Rightarrow> u64 \<Rightarrow> u64 \<Rightarrow> telemetry \<Rightarrow> telemetry" where
  "push_perf_value k iThd iHashCount iTimestamp t =
     (let iTop = (ucast (iBucketTop t ! iThd) :: u64);
          t1 = t\<lparr>ppHashCounts := (ppHashCounts t)[iThd := (ppHashCounts t ! iThd)[unat iTop := iHashCount]]\<rparr>;
          t2 = t1\<lparr>ppTimestamps := (ppTimestamps t1)[iThd := (ppTimestamps t1 ! iThd)[unat iTop := iTimestamp]]\<rparr>
      in t2\<lparr>iBucketTop := (iBucketTop t2)[iThd := ucast ((iTop + 1) AND iBucketMask k)]\<rparr>)"

text \<open>
  The local variables of \<open>calc_telemetry_data\<close> that its loop changes.
\<close>

record walk =
  iEarliestHashCnt :: u64
  iEarliestStamp :: u64
  iLastestStamp :: u64
  iLastestHashCnt :: u64
  bHaveFullSet :: bool

text \<open>
  \<open>(iBucketTop[iThread] - i) & iBucketMask\<close>, computed in \<open>size_t\<close> (64 bits), where the
  subtraction wraps.
\<close>

definition bucket_idx :: "nat \<Rightarrow> u32 \<Rightarrow> nat \<Rightarrow> nat" where
  "bucket_idx k iTop i = unat ((ucast iTop - of_nat i :: u64) AND iBucketMask k)"

text \<open>
  The loop of \<open>calc_telemetry_data\<close> from index \<open>i\<close> on; both \<open>break\<close>s end it.
\<close>

function calc_loop :: "nat \<Rightarrow> u64 list \<Rightarrow> u64 list \<Rightarrow> u32 \<Rightarrow> u64 \<Rightarrow> u64 \<Rightarrow> nat \<Rightarrow> walk \<Rightarrow> walk" where
  "calc_loop k stamps counts iTop iTimeNow iLastMilisec i w =
     (if i < iBucketSize k then
        (let idx = bucket_idx k iTop i in
         if stamps ! idx = 0 then w
         else
           (let w1 = (if iLastestStamp w = 0
                      then w\<lparr>iLastestStamp := stamps ! idx, iLastestHashCnt := counts ! idx\<rparr>
                      else w)
            in if iTimeNow - stamps ! idx > iLastMilisec then w1\<lparr>bHaveFullSet := True\<rparr>
               else calc_loop k stamps counts iTop iTimeNow iLastMilisec (i + 1)
                      (w1\<lparr>iEarliestStamp := stamps ! idx, iEarliestHashCnt := counts ! idx\<rparr>)))
      else w)"
  by pat_completeness auto
termination
  by (relation "measure (\<lambda>(k, stamps, counts, iTop, iTimeNow, iLastMilisec, i, w). iBucketSize k - i)") auto

declare calc_loop.simps [simp del]

text \<open>
  The loop run from \<open>i = 1\<close> on the zeroed variables.
\<close>

definition calc_walk :: "nat \<Rightarrow> telemetry \<Rightarrow> u64 \<Rightarrow> u64 \<Rightarrow> nat \<Rightarrow> walk" where
  "calc_walk k t iTimeNow iLastMilisec iThread =
     calc_loop k (ppTimestamps t ! iThread) (ppHashCounts t ! iThread) (iBucketTop t ! iThread)
       iTimeNow iLastMilisec 1
       \<lparr>iEarliestHashCnt = 0, iEarliestStamp = 0, iLastestStamp = 0, iLastestHashCnt = 0,
        bHaveFullSet = False\<rparr>"

text \<open>
  The \<open>double\<close> that \<open>calc_telemetry_data\<close> returns: \<open>NaN\<close> is \<open>nan("")\<close>, and
  \<open>Ratio h t\<close> is the quotient \<open>fHashes / fTime\<close> where \<open>fHashes\<close> is the 64-bit
  difference \<open>h\<close> converted to \<open>double\<close> and \<open>fTime\<close> is the 64-bit difference \<open>t\<close>
  converted to \<open>double\<close> and divided by 1000.0. The floating-point quotient itself is not
  computed in the model. \<open>iTimeNow\<close> is the clock reading of the call.
\<close>

datatype hashrate = NaN | Ratio u64 u64

definition calc_telemetry_data :: "nat \<Rightarrow> telemetry \<Rightarrow> u64 \<Rightarrow> u64 \<Rightarrow> nat \<Rightarrow> hashrate" where
  "calc_telemetry_data k t iTimeNow iLastMilisec iThread =
     (let w = calc_walk k t iTimeNow iLastMilisec iThread in
      if \<not> bHaveFullSet w \<or> iEarliestStamp w = 0 \<or> iLastestStamp w = 0 then NaN
      else if iLastestStamp w - iEarliestStamp w = 0 then NaN
      else Ratio (iLastestHashCnt w - iEarliestHashCnt w) (iLastestStamp w - iEarliestStamp w))"


text \<open>
  The words of the specification about the hashrate. A sample is a timestamp with its
  hash count; \<open>walked\<close> lists the samples in the order the backward walk reads them,
  from the slot before \<open>top\<close>. A sample is in the window when it is written (its
  timestamp is not 0) and its age is at most the window. The walk hits an unwritten
  slot, never leaves the window, or finds its newest sample too old already; the latest
  sample is the first one walked and the earliest the last one walked that is in the
  window.
\<close>

type_synonym sample = "u64 \<times> u64"

definition walked :: "nat \<Rightarrow> telemetry \<Rightarrow> nat \<Rightarrow> sample list" where
  "walked k t iThread =
     map (\<lambda>i. (ppTimestamps t ! iThread ! bucket_idx k (iBucketTop t ! iThread) i,
               ppHashCounts t ! iThread ! bucket_idx k (iBucketTop t ! iThread) i))
       [1..<iBucketSize k]"

definition in_window :: "u64 \<Rightarrow> u64 \<Rightarrow> sample \<Rightarrow> bool" where
  "in_window iTimeNow iLastMilisec s \<longleftrightarrow> fst s \<noteq> 0 \<and> \<not> iTimeNow - fst s > iLastMilisec"

definition hits_unwritten :: "u64 \<Rightarrow> u64 \<Rightarrow> sample list \<Rightarrow> bool" where
  "hits_unwritten iTimeNow iLastMilisec ws =
     (case dropWhile (in_window iTimeNow iLastMilisec) ws of [] \<Rightarrow> False | s # _ \<Rightarrow> fst s = 0)"

definition never_leaves_window :: "u64 \<Rightarrow> u64 \<Rightarrow> sample list \<Rightarrow> bool" where
  "never_leaves_window iTimeNow iLastMilisec ws =
     (dropWhile (in_window iTimeNow iLastMilisec) ws = [])"

definition newest_too_old :: "u64 \<Rightarrow> u64 \<Rightarrow> sample list \<Rightarrow> bool" where
  "newest_too_old iTimeNow iLastMilisec ws =
     (case ws of [] \<Rightarrow> False | s # _ \<Rightarrow> fst s \<noteq> 0 \<and> iTimeNow - fst s > iLastMilisec)"

definition latest_sample :: "u64 \<Rightarrow> u64 \<Rightarrow> sample list \<Rightarrow> sample" where
  "latest_sample iTimeNow iLastMilisec ws = hd (takeWhile (in_window iTimeNow iLastMilisec) ws)"

definition earliest_sample :: "u64 \<Rightarrow> u64 \<Rightarrow> sample list \<Rightarrow> sample" where
  "earliest_sample iTimeNow iLastMilisec ws = last (takeWhile (in_window iTimeNow iLastMilisec) ws)"

text \<open>
  The loop of \<open>calc_telemetry_data\<close> on the list of the samples it has still to read.
\<close>

fun walk_samples :: "u64 \<Rightarrow> u64 \<Rightarrow> sample list \<Rightarrow> walk \<Rightarrow> walk" where
  "walk_samples iTimeNow iLastMilisec [] w = w"
| "walk_samples iTimeNow iLastMilisec (s # ss) w =
     (if fst s = 0 then w
      else
        (let w1 = (if iLastestStamp w = 0
                   then w\<lparr>iLastestStamp := fst s, iLastestHashCnt := snd s\<rparr>
                   else w)
         in if iTimeNow - fst s > iLastMilisec then w1\<lparr>bHaveFullSet := True\<rparr>
            else walk_samples iTimeNow iLastMilisec ss
                   (w1\<lparr>iEarliestStamp := fst s, iEarliestHashCnt := snd s\<rparr>)))"

text \<open>
  Three rings for the examples, made by the constructor for one thread and filled by
  \<open>push_perf_value\<close>: one with the samples (5 hashes, 1 ms), (400, 990) and (500, 995), one
  with the first of them only, and one with the first two.
\<close>

definition example_ring :: telemetry where
  "example_ring =
     push_perf_value 4 0 500 995 (push_perf_value 4 0 400 990 (push_perf_value 4 0 5 1
       (telemetry_ctor 4 (\<lambda>i. replicate 16 7) (\<lambda>i. replicate 16 7) (\<lambda>i. 9) 1)))"

definition one_sample_ring :: telemetry where
  "one_sample_ring =
     push_perf_value 4 0 5 1 (telemetry_ctor 4 (\<lambda>i. replicate 16 7) (\<lambda>i. replicate 16 7) (\<lambda>i. 9) 1)"

definition two_sample_ring :: telemetry where
  "two_sample_ring =
     push_perf_value 4 0 400 990 (push_perf_value 4 0 5 1
       (telemetry_ctor 4 (\<lambda>i. replicate 16 7) (\<lambda>i. replicate 16 7) (\<lambda>i. 9) 1))"

section \<open>The workers\<close>

subsection \<open>Bytes in memory\<close>

text \<open>
  The code reads and writes integers through pointers into byte buffers
  (\<open>*(uint32_t*)(blob + 39)\<close>, \<open>*(uint64_t*)(out + 24)\<close>), on a little-endian machine: the
  first byte is the least significant one. \<open>le_bytes n v\<close> are the \<open>n\<close> bytes of \<open>v\<close> and
  \<open>le_val\<close> is the number that bytes stand for. A buffer is the list of its bytes; the
  reads and writes below are those of offsets inside the buffer.
\<close>

fun le_bytes :: "nat \<Rightarrow> nat \<Rightarrow> u8 list" where
  "le_bytes 0 v = []"
| "le_bytes (Suc n) v = of_nat (v mod 256) # le_bytes n (v div 256)"

fun le_val :: "u8 list \<Rightarrow> nat" where
  "le_val [] = 0"
| "le_val (b # bs) = unat b + 256 * le_val bs"

definition read_u32 :: "u8 list \<Rightarrow> nat \<Rightarrow> u32" where
  "read_u32 buf off = of_nat (le_val (take 4 (drop off buf)))"

definition read_u64 :: "u8 list \<Rightarrow> nat \<Rightarrow> u64" where
  "read_u64 buf off = of_nat (le_val (take 8 (drop off buf)))"

definition write_u32 :: "u8 list \<Rightarrow> nat \<Rightarrow> u32 \<Rightarrow> u8 list" where
  "write_u32 buf off v = take off buf @ le_bytes 4 (unat v) @ drop (off + 4) buf"

text \<open>\<open>memcpy(dst + off, src, n)\<close>\<close>

definition memcpy :: "u8 list \<Rightarrow> nat \<Rightarrow> u8 list \<Rightarrow> nat \<Rightarrow> u8 list" where
  "memcpy dst off src n = take off dst @ take n src @ drop (off + n) dst"

subsection \<open>Work items, results and the shared slot\<close>

text \<open>
  Modelled from the spec: \<open>miner_work\<close>, \<open>job_result\<close> and \<open>ex_event\<close> are declared in
  headers that are not among the sources. The records have the members this file uses:
  a work item has a job id, a blob of at most 112 bytes with the nonce in bytes 39 to
  42, the size of the blob, a resume counter, a 64-bit target, the NiceHash and stall
  flags and a pool id; a solution has the job id, the 32-bit nonce and the 32 bytes of
  the digest, and its event adds the pool id.
\<close>

record miner_work =
  sJobID :: "u8 list"
  bWorkBlob :: "u8 list"
  iWorkSize :: u32
  iResumeCnt :: u32
  iTarget :: u64
  bNiceHash :: bool
  bStall :: bool
  iPoolId :: u64

record job_result =
  res_sJobID :: "u8 list"
  res_iNonce :: u32
  bResult :: "u8 list"

record ex_event =
  ev_result :: job_result
  ev_iPoolId :: u64

text \<open>The static members of \<open>minethd\<close>, shared by the executor and all workers.\<close>

record shared =
  oGlobalWork :: miner_work
  iGlobalJobNo :: u64
  iConsumeCnt :: u64
  iThreadCount :: u64

text \<open>
  The members of one \<open>minethd\<close> that its worker function uses, and the events it has
  pushed to the executor.
\<close>

record minethd =
  oWork :: miner_work
  iJobNo :: u64
  iHashCount :: u64
  iTimestamp :: u64
  events :: "ex_event list"

text \<open>
  \<open>executor::inst()->push_event(e)\<close>: the executor is a sink that takes the solutions in
  the order they are pushed.
\<close>

definition push_event :: "ex_event \<Rightarrow> 'a minethd_scheme \<Rightarrow> 'a minethd_scheme" where
  "push_event e s = s\<lparr>events := events s @ [e]\<rparr>"

text \<open>\<open>minethd::consume_work\<close>, on the shared slot as it is at the time of the call.\<close>

definition consume_work :: "shared \<Rightarrow> 'a minethd_scheme \<Rightarrow> 'a minethd_scheme \<times> shared" where
  "consume_work g s =
     (s\<lparr>oWork := oGlobalWork g, iJobNo := iJobNo s + 1\<rparr>, g\<lparr>iConsumeCnt := iConsumeCnt g + 1\<rparr>)"

text \<open>The two stores of a telemetry sample; \<open>iStamp\<close> is the clock reading.\<close>

definition store_stats :: "u64 \<Rightarrow> u64 \<Rightarrow> 'a minethd_scheme \<Rightarrow> 'a minethd_scheme" where
  "store_stats iCount iStamp s = s\<lparr>iHashCount := iCount, iTimestamp := iStamp\<rparr>"

text \<open>
  \<open>calc_start_nonce\<close> and \<open>calc_nicehash_nonce\<close> are members declared in \<open>minethd.h\<close>, which
  is not among the sources: they are parameters. \<open>start\<close> is the nonce read from the blob.
\<close>

definition start_nonce :: "(u32 \<Rightarrow> u32 \<Rightarrow> u32) \<Rightarrow> (u32 \<Rightarrow> u32) \<Rightarrow> miner_work \<Rightarrow> u32 \<Rightarrow> u32" where
  "start_nonce calc_nicehash_nonce calc_start_nonce w start =
     (if bNiceHash w then calc_nicehash_nonce start (iResumeCnt w)
      else calc_start_nonce (iResumeCnt w))"

subsection \<open>The single-way worker\<close>

text \<open>
  The locals of \<open>work_main\<close>. \<open>piNonce\<close> points at byte 39 of \<open>oWork.bWorkBlob\<close> and
  \<open>piHashVal\<close> at byte 24 of \<open>result.bResult\<close>, for the whole run.
\<close>

record work_state = minethd +
  w_ctx :: "cryptonight_ctx option"
  w_iCount :: u64
  result :: job_result

text \<open>
  One pass of the inner loop of \<open>work_main\<close>, in two parts: up to the kernel call, and
  the comparison with the target.
\<close>

definition work_hash :: "'h platform \<Rightarrow> u64 \<Rightarrow> work_state \<Rightarrow> work_state" where
  "work_hash p iStamp s =
     (let s1 = (if w_iCount s AND 0xF = 0 then store_stats (w_iCount s) iStamp s else s);
          s2 = s1\<lparr>w_iCount := w_iCount s1 + 1\<rparr>;
          n = res_iNonce (result s2) + 1;
          s3 = s2\<lparr>result := (result s2)\<lparr>res_iNonce := n\<rparr>,
                  oWork := (oWork s2)\<lparr>bWorkBlob := write_u32 (bWorkBlob (oWork s2)) 39 n\<rparr>\<rparr>
      in s3\<lparr>result := (result s3)\<lparr>bResult :=
             cryptonight_hash p (bWorkBlob (oWork s3)) (unat (iWorkSize (oWork s3)))
               (bResult (result s3)) (w_ctx s3)\<rparr>\<rparr>)"

definition work_round :: "'h platform \<Rightarrow> u64 \<Rightarrow> work_state \<Rightarrow> work_state" where
  "work_round p iStamp s =
     (let s4 = work_hash p iStamp s in
      if read_u64 (bResult (result s4)) 24 < iTarget (oWork s4)
      then push_event \<lparr>ev_result = result s4, ev_iPoolId = iPoolId (oWork s4)\<rparr> s4
      else s4)"

text \<open>
  The inner loop. The other threads decide what each load of \<open>iGlobalJobNo\<close> gives and
  the clock what each stamp is: \<open>obs\<close> lists, for the passes to come, the job number
  loaded and the clock reading. The loop ends at the first job number that differs from
  \<open>iJobNo\<close>; when \<open>obs\<close> runs out the worker is still in the loop.
\<close>

fun work_inner :: "'h platform \<Rightarrow> (u64 \<times> u64) list \<Rightarrow> work_state \<Rightarrow> work_state \<times> (u64 \<times> u64) list" where
  "work_inner p [] s = (s, [])"
| "work_inner p ((job_no, iStamp) # obs) s =
     (if job_no = iJobNo s then work_inner p obs (work_round p iStamp s) else (s, obs))"

text \<open>
  The body of the outer loop up to \<open>consume_work\<close>: a stalled worker sleeps until the job
  number changes, the other ones set the start nonce and the job id and run the inner
  loop. \<open>consume_work\<close> follows in both branches.
\<close>

definition work_pass :: "'h platform \<Rightarrow> (u32 \<Rightarrow> u32 \<Rightarrow> u32) \<Rightarrow> (u32 \<Rightarrow> u32) \<Rightarrow> (u64 \<times> u64) list
    \<Rightarrow> work_state \<Rightarrow> work_state \<times> (u64 \<times> u64) list" where
  "work_pass p calc_nicehash_nonce calc_start_nonce obs s =
     (if bStall (oWork s) then (s, drop 1 (dropWhile (\<lambda>(job_no, iStamp). job_no = iJobNo s) obs))
      else work_inner p obs
             (s\<lparr>result := (result s)
                  \<lparr>res_iNonce := start_nonce calc_nicehash_nonce calc_start_nonce (oWork s)
                                   (read_u32 (bWorkBlob (oWork s)) 39),
                   res_sJobID := sJobID (oWork s)\<rparr>\<rparr>))"

subsection \<open>The multiway workers\<close>

text \<open>
  A multiway kernel: the interleaved blobs, the size of one blob, the output buffer and
  the contexts; it gives the output buffer it leaves.
\<close>

type_synonym hash_fn = "u8 list \<Rightarrow> nat \<Rightarrow> u8 list \<Rightarrow> cryptonight_ctx option list \<Rightarrow> u8 list"

text \<open>
  The locals of \<open>multiway_work_main\<close>. \<open>bWorkBlobs\<close> is its local array \<open>bWorkBlob\<close> (8 times
  112 bytes) and \<open>bHashOut\<close> its output buffer (8 times 32 bytes). A nonce pointer is the
  offset into \<open>bWorkBlobs\<close> it points at, or \<open>None\<close> when it is null. \<open>piHashVal[i]\<close> is set
  once, to the offset \<open>32 * i + 24\<close> into \<open>bHashOut\<close>.
\<close>

record multiway_state = minethd +
  ctxs :: "cryptonight_ctx option list"
  iCount :: u64
  piNonce :: "nat option list"
  bHashOut :: "u8 list"
  bWorkBlobs :: "u8 list"
  iNonce :: u32

definition piHashVal :: "nat \<Rightarrow> nat" where
  "piHashVal i = 32 * i + 24"

text \<open>
  The state when the main loop is entered, for a thread the constructor has made with
  \<open>pWork\<close>. The contexts are the ones \<open>minethd_alloc_ctx\<close> returned; \<open>hash_out\<close>, \<open>blobs\<close> and
  \<open>nonce\<close> are what the local arrays and \<open>iNonce\<close>, which nothing initialises, hold.
\<close>

definition multiway_init :: "nat \<Rightarrow> miner_work \<Rightarrow> cryptonight_ctx option list \<Rightarrow> u8 list \<Rightarrow> u8 list \<Rightarrow> u32
    \<Rightarrow> multiway_state" where
  "multiway_init N pWork new_ctxs hash_out blobs nonce =
     \<lparr>oWork = pWork, iJobNo = 0, iHashCount = 0, iTimestamp = 0, events = [],
      ctxs = new_ctxs, iCount = 0,
      piNonce = map (\<lambda>i. if i = 0 then Some 39 else None) [0..<N],
      bHashOut = hash_out, bWorkBlobs = blobs, iNonce = nonce\<rparr>"

text \<open>The loop after each \<open>consume_work\<close>: copy the blob into each lane, set its pointer.\<close>

definition refresh_lane :: "nat \<Rightarrow> multiway_state \<Rightarrow> multiway_state" where
  "refresh_lane i s =
     (let n = unat (iWorkSize (oWork s)) in
      s\<lparr>bWorkBlobs := memcpy (bWorkBlobs s) (n * i) (bWorkBlob (oWork s)) n,
        piNonce := (piNonce s)[i := Some (n * i + 39)]\<rparr>)"

definition refresh_blobs :: "nat \<Rightarrow> multiway_state \<Rightarrow> multiway_state" where
  "refresh_blobs N s = fold refresh_lane [0..<N] s"

text \<open>\<open>if (piNonce[i]) *piNonce[i] = ++iNonce;\<close>\<close>

definition write_nonce :: "nat \<Rightarrow> multiway_state \<Rightarrow> multiway_state" where
  "write_nonce i s =
     (case piNonce s ! i of
        None \<Rightarrow> s
      | Some off \<Rightarrow> s\<lparr>iNonce := iNonce s + 1, bWorkBlobs := write_u32 (bWorkBlobs s) off (iNonce s + 1)\<rparr>)"

text \<open>
  \<open>job_result(oWork.sJobID, iNonce - N + 1 + i, bHashOut + 32 * i)\<close>: the nonce is computed
  in \<open>size_t\<close> (64 bits) and cut to the 32 bits of the member. Modelled from the spec: the
  constructor is in a header that is not among the sources; the solution takes the job
  id, the nonce and the digest \<open>hash_out[i*32 .. i*32+32]\<close>.
\<close>

definition lane_result :: "nat \<Rightarrow> nat \<Rightarrow> multiway_state \<Rightarrow> job_result" where
  "lane_result N i s =
     \<lparr>res_sJobID = sJobID (oWork s),
      res_iNonce = ucast ((ucast (iNonce s) :: u64) - of_nat N + 1 + of_nat i),
      bResult = take 32 (drop (32 * i) (bHashOut s))\<rparr>"

text \<open>\<open>if (*piHashVal[i] < oWork.iTarget) push_event(...)\<close>\<close>

definition check_lane :: "nat \<Rightarrow> nat \<Rightarrow> multiway_state \<Rightarrow> multiway_state" where
  "check_lane N i s =
     (if read_u64 (bHashOut s) (piHashVal i) < iTarget (oWork s)
      then push_event \<lparr>ev_result = lane_result N i s, ev_iPoolId = iPoolId (oWork s)\<rparr> s
      else s)"

text \<open>
  One pass of the inner loop of \<open>multiway_work_main\<close>, in two parts: up to the kernel
  call, and the loop over the lanes that compares with the target.
\<close>

definition multiway_hash :: "nat \<Rightarrow> hash_fn \<Rightarrow> u64 \<Rightarrow> multiway_state \<Rightarrow> multiway_state" where
  "multiway_hash N hash_fn iStamp s =
     (let s1 = (if iCount s AND 0x3 = 0 then store_stats (iCount s) iStamp s else s);
          s2 = s1\<lparr>iCount := iCount s1 + of_nat N\<rparr>;
          s3 = fold write_nonce [0..<N] s2
      in s3\<lparr>bHashOut := hash_fn (bWorkBlobs s3) (unat (iWorkSize (oWork s3))) (bHashOut s3) (ctxs s3)\<rparr>)"

definition multiway_round :: "nat \<Rightarrow> hash_fn \<Rightarrow> u64 \<Rightarrow> multiway_state \<Rightarrow> multiway_state" where
  "multiway_round N hash_fn iStamp s = fold (check_lane N) [0..<N] (multiway_hash N hash_fn iStamp s)"

text \<open>The inner loop and the body of the outer loop, as for the single-way worker.\<close>

fun multiway_inner :: "nat \<Rightarrow> hash_fn \<Rightarrow> (u64 \<times> u64) list \<Rightarrow> multiway_state
    \<Rightarrow> multiway_state \<times> (u64 \<times> u64) list" where
  "multiway_inner N hash_fn [] s = (s, [])"
| "multiway_inner N hash_fn ((job_no, iStamp) # obs) s =
     (if job_no = iJobNo s then multiway_inner N hash_fn obs (multiway_round N hash_fn iStamp s)
      else (s, obs))"

text \<open>
  \<open>piNonce[0]\<close> is never null: the read of \<open>*piNonce[0]\<close> has no other case to model.
\<close>

definition multiway_pass :: "nat \<Rightarrow> hash_fn \<Rightarrow> (u32 \<Rightarrow> u32 \<Rightarrow> u32) \<Rightarrow> (u32 \<Rightarrow> u32) \<Rightarrow> (u64 \<times> u64) list
    \<Rightarrow> multiway_state \<Rightarrow> multiway_state \<times> (u64 \<times> u64) list" where
  "multiway_pass N hash_fn calc_nicehash_nonce calc_start_nonce obs s =
     (if bStall (oWork s) then (s, drop 1 (dropWhile (\<lambda>(job_no, iStamp). job_no = iJobNo s) obs))
      else multiway_inner N hash_fn obs
             (s\<lparr>iNonce := start_nonce calc_nicehash_nonce calc_start_nonce (oWork s)
                            (case piNonce s ! 0 of Some off \<Rightarrow> read_u32 (bWorkBlobs s) off | None \<Rightarrow> 0)\<rparr>))"

text \<open>\<open>consume_work\<close> and the refresh of the lanes that follows it.\<close>

definition multiway_consume :: "nat \<Rightarrow> shared \<Rightarrow> multiway_state \<Rightarrow> multiway_state \<times> shared" where
  "multiway_consume N g s = (case consume_work g s of (s1, g1) \<Rightarrow> (refresh_blobs N s1, g1))"

text \<open>
  The words of the specification about a round. The digest of lane \<open>i\<close> is the 32 bytes
  of the output buffer from \<open>32 * i\<close> on, its trailing word the little-endian number in
  its last 8 bytes; the solving lanes are those whose trailing word is below the target,
  in lane order. All lanes are set when each nonce pointer points at byte 39 of its own
  copy of the blob, as the refresh leaves them; only lane 0 is set in the state the main
  loop is entered with.
\<close>

definition lane_digest :: "u8 list \<Rightarrow> nat \<Rightarrow> u8 list" where
  "lane_digest out i = take 32 (drop (32 * i) out)"

definition trailing_word :: "u8 list \<Rightarrow> u64" where
  "trailing_word digest = read_u64 (drop 24 digest) 0"

definition solving_lanes :: "nat \<Rightarrow> u8 list \<Rightarrow> u64 \<Rightarrow> nat list" where
  "solving_lanes N out target = filter (\<lambda>i. trailing_word (lane_digest out i) < target) [0..<N]"

definition lane_event :: "nat \<Rightarrow> multiway_state \<Rightarrow> nat \<Rightarrow> ex_event" where
  "lane_event N s i = \<lparr>ev_result = lane_result N i s, ev_iPoolId = iPoolId (oWork s)\<rparr>"

definition lanes_set :: "nat \<Rightarrow> multiway_state \<Rightarrow> bool" where
  "lanes_set N s \<longleftrightarrow> piNonce s = map (\<lambda>i. Some (unat (iWorkSize (oWork s)) * i + 39)) [0..<N]"

definition lane_0_only :: "nat \<Rightarrow> multiway_state \<Rightarrow> bool" where
  "lane_0_only N s \<longleftrightarrow> piNonce s = map (\<lambda>i. if i = 0 then Some 39 else None) [0..<N]"

subsection \<open>Publishing work\<close>

text \<open>
  What \<open>switch_work\<close> does to the shared slot, in program order. The worker threads
  change \<open>iConsumeCnt\<close> while \<open>switch_work\<close> polls it: \<open>loads\<close> lists the values that its
  successive loads of \<open>iConsumeCnt\<close> give. The result is \<open>None\<close> when every load of the list
  is below \<open>iThreadCount\<close>, that is while \<open>switch_work\<close> is still waiting; otherwise the
  effects in the order they happen and the shared slot when it returns.
\<close>

datatype effect =
    Load_iConsumeCnt u64
  | Sleep_ms nat
  | Store_oGlobalWork miner_work
  | Store_iConsumeCnt u64
  | Inc_iGlobalJobNo

fun switch_work :: "miner_work \<Rightarrow> u64 list \<Rightarrow> shared \<Rightarrow> (effect list \<times> shared) option" where
  "switch_work pWork [] g = None"
| "switch_work pWork (c # loads) g =
     (if c < iThreadCount g
      then map_option (\<lambda>(trace, g'). (Load_iConsumeCnt c # Sleep_ms 100 # trace, g'))
             (switch_work pWork loads g)
      else Some ([Load_iConsumeCnt c, Store_oGlobalWork pWork, Store_iConsumeCnt 0, Inc_iGlobalJobNo],
                 g\<lparr>oGlobalWork := pWork, iConsumeCnt := 0, iGlobalJobNo := iGlobalJobNo g + 1\<rparr>))"

subsection \<open>Examples\<close>

text \<open>
  A work item of 76 bytes; a kernel that leaves digests with the given trailing words;
  a multiway worker as the main loop is entered, on zeroed buffers with \<open>iNonce\<close> 100; the
  shared slot after one \<open>switch_work\<close>; a single-way worker; and the multiway worker after
  its first \<open>consume_work\<close>.
\<close>

definition example_work :: "u64 \<Rightarrow> bool \<Rightarrow> miner_work" where
  "example_work target stall =
     \<lparr>sJobID = bytes_of ''job'' @ replicate 61 0, bWorkBlob = replicate 112 0, iWorkSize = 76,
      iResumeCnt = 0, iTarget = target, bNiceHash = False, bStall = stall, iPoolId = 1\<rparr>"

definition example_kernel :: "nat list \<Rightarrow> hash_fn" where
  "example_kernel ws blobs n out cs =
     concat (map (\<lambda>w. replicate 24 0 @ le_bytes 8 w) ws) @ drop (32 * length ws) out"

definition example_multiway :: "nat \<Rightarrow> u64 \<Rightarrow> multiway_state" where
  "example_multiway N target =
     multiway_init N (example_work target False) (map Some [1..<Suc N]) (replicate 256 0)
       (replicate 896 0) 100"

definition example_shared :: "u64 \<Rightarrow> shared" where
  "example_shared target =
     \<lparr>oGlobalWork = example_work target False, iGlobalJobNo = 1, iConsumeCnt = 0, iThreadCount = 1\<rparr>"

definition example_single :: "u64 \<Rightarrow> work_state" where
  "example_single target =
     \<lparr>oWork = example_work target False, iJobNo = 0, iHashCount = 0, iTimestamp = 0, events = [],
      w_ctx = Some 1, w_iCount = 0,
      result = \<lparr>res_sJobID = replicate 64 0, res_iNonce = 100, bResult = replicate 32 0\<rparr>\<rparr>"


section \<open>Properties\<close>

text \<open>
  C10. For every multiway configuration value other than 2, 4, 5 and 6 (0, 3 and the
  negative values among them) the constructor starts the thread on \<open>work_main\<close>, the
  single-way worker, whose width is 1; no value makes the constructor fail.
\<close>

theorem minethd_unknown_width_is_single:
  "iMultiway \<notin> {2, 4, 5, 6} \<Longrightarrow>
     minethd_entry iMultiway = work_main \<and> entry_width (minethd_entry iMultiway) = 1"
  by (simp add: minethd_entry_def)

theorem minethd_unknown_width_is_single_witness:
  "(3::int) \<notin> {2, 4, 5, 6} \<and> minethd_entry 3 = work_main \<and> entry_width (minethd_entry 3) = 1
   \<and> (0::int) \<notin> {2, 4, 5, 6} \<and> minethd_entry 0 = work_main
   \<and> (-1::int) \<notin> {2, 4, 5, 6} \<and> minethd_entry (-1) = work_main"
  using minethd_unknown_width_is_single [of 3] minethd_unknown_width_is_single [of 0]
    minethd_unknown_width_is_single [of "-1"]
  by simp

subsection \<open>Scratchpad allocation\<close>

text \<open>
  C8. In the \<open>print_warning\<close> memory mode \<open>minethd_alloc_ctx\<close> first asks for huge pages
  with mlock (\<open>cryptonight_alloc_ctx(1, 1, &msg)\<close>), prints the warning when that call
  left one, and, when that call gave a null context, returns what the regular-page call
  \<open>cryptonight_alloc_ctx(0, 0, NULL)\<close> gives on the memory the first call left. So it
  returns null only when the first call and the regular-page fallback both return null.
\<close>

theorem minethd_alloc_ctx_print_warning:
  assumes "GetSlowMemSetting p = print_warning"
    and "alloc_ctx p 1 1 True s = ((ctx1, warning), s1)"
    and "s2 = (if warning \<noteq> None then print_msg (Memory_alloc_failed warning) s1 else s1)"
    and "alloc_ctx p 0 0 False s2 = ((ctx2, warning2), s3)"
  shows "minethd_alloc_ctx p s = (if ctx1 = None then (ctx2, s3) else (ctx1, s2))
       \<and> console s2 = console s1 @ (if warning \<noteq> None then [Memory_alloc_failed warning] else [])
       \<and> (fst (minethd_alloc_ctx p s) = None \<longleftrightarrow> ctx1 = None \<and> ctx2 = None)"
  using assms
  by (cases ctx1; cases warning) (simp_all add: minethd_alloc_ctx_def print_msg_def Let_def)

theorem minethd_alloc_ctx_print_warning_witness:
  "minethd_alloc_ctx (example_platform print_warning) \<lparr>heap = 0, console = []\<rparr>
     = (Some 1, \<lparr>heap = 1, console = [Memory_alloc_failed (Some ''mmap failed'')]\<rparr>)"
  using minethd_alloc_ctx_print_warning [of "example_platform print_warning"
      "\<lparr>heap = 0, console = []\<rparr>" None "Some ''mmap failed''" "\<lparr>heap = 0, console = []\<rparr>"
      "\<lparr>heap = 0, console = [Memory_alloc_failed (Some ''mmap failed'')]\<rparr>"
      "Some 1" None "\<lparr>heap = 1, console = [Memory_alloc_failed (Some ''mmap failed'')]\<rparr>"]
  by (simp add: example_platform_def alloc_ctx_def print_msg_def)

subsection \<open>The self test\<close>

lemma nth_alloc_0: "nth_alloc p 0 s = fst (minethd_alloc_ctx p s)"
  by (simp add: nth_alloc_def)

lemma nth_alloc_Suc: "nth_alloc p (Suc i) s = nth_alloc p i (snd (minethd_alloc_ctx p s))"
  by (simp add: nth_alloc_def)

lemma ex_less_Suc_shift: "(\<exists>i<Suc n. P i) \<longleftrightarrow> P 0 \<or> (\<exists>i<n. P (Suc i))"
  by (metis less_Suc_eq_0_disj)

lemma alloc_loop_fst:
  "fst (alloc_loop p n ctx s) =
     (if \<exists>i<n. nth_alloc p i s = None then None
      else Some (ctx @ map (\<lambda>i. nth_alloc p i s) [0..<n]))"
proof (induction n arbitrary: ctx s)
  case 0
  then show ?case by simp
next
  case (Suc n)
  obtain r s1 where r: "minethd_alloc_ctx p s = (r, s1)" by (cases "minethd_alloc_ctx p s")
  show ?case
  proof (cases r)
    case None
    with r have "nth_alloc p 0 s = None" by (simp add: nth_alloc_0)
    then have "\<exists>i<Suc n. nth_alloc p i s = None" by blast
    with r None show ?thesis by simp
  next
    case (Some c)
    have shift: "nth_alloc p (Suc i) s = nth_alloc p i s1" for i
      using r by (simp add: nth_alloc_Suc)
    have z: "nth_alloc p 0 s = Some c" using r Some by (simp add: nth_alloc_0)
    have m: "map (\<lambda>i. nth_alloc p i s) [0..<Suc n] = Some c # map (\<lambda>i. nth_alloc p i s1) [0..<n]"
      by (simp add: upt_conv_Cons map_Suc_upt [symmetric] shift z del: upt_Suc)
    have "fst (alloc_loop p (Suc n) ctx s) = fst (alloc_loop p n (ctx @ [Some c]) s1)"
      using r Some by simp
    also have "\<dots> = (if \<exists>i<n. nth_alloc p i s1 = None then None
        else Some ((ctx @ [Some c]) @ map (\<lambda>i. nth_alloc p i s1) [0..<n]))"
      by (rule Suc.IH)
    also have "\<dots> = (if \<exists>i<Suc n. nth_alloc p i s = None then None
        else Some (ctx @ map (\<lambda>i. nth_alloc p i s) [0..<Suc n]))"
      unfolding ex_less_Suc_shift m by (simp add: shift z)
    finally show ?thesis .
  qed
qed

lemma expected_copies:
  "expected_quad = concat (replicate 4 expected_hash)"
  "expected_pent = concat (replicate 5 expected_hash)"
  "expected_hex = concat (replicate 6 expected_hash)"
  by (simp_all add: expected_quad_def expected_pent_def expected_hex_def expected_hash_def numeral_eq_Suc)

lemma input_copies:
  "quad_input = concat (replicate 4 test_input)"
  "pent_input = concat (replicate 5 test_input)"
  "hex_input = concat (replicate 6 test_input)"
  "length test_input = 14"
  by (simp_all add: quad_input_def pent_input_def hex_input_def test_input_def numeral_eq_Suc)

lemma expected_lengths: 
  "length expected_hash = 32" "length expected_double = 64" "length expected_quad = 128"
  "length expected_pent = 160" "length expected_hex = 192"
  by (simp_all add: expected_quad_def expected_pent_def expected_hex_def expected_hash_def expected_double_def)

lemma self_test_false_iff:
  "(fst (self_test p out s) = False \<longleftrightarrow>
      GetSlowMemSetting p = unknown_value
    \<or> (GetSlowMemSetting p = never_use \<and> fst (cryptonight_init p 1 1) = 0)
    \<or> (GetSlowMemSetting p = no_mlck \<and> fst (cryptonight_init p 1 0) = 0)
    \<or> (\<exists>i<6. nth_alloc p i (after_init p s) = None)
    \<or> \<not> kernels_match p out (map (\<lambda>i. nth_alloc p i (after_init p s)) [0..<6]))"
proof -
  let ?s1 = "after_init p s"
  have loop: "fst (alloc_loop p 6 [] ?s1) =
     (if \<exists>i<6. nth_alloc p i ?s1 = None then None
      else Some (map (\<lambda>i. nth_alloc p i ?s1) [0..<6]))"
    using alloc_loop_fst [of p 6 "[]" ?s1] by simp
  have len: "take 32 expected_hash = expected_hash" "take 64 expected_double = expected_double"
    "take 128 expected_quad = expected_quad" "take 160 expected_pent = expected_pent"
    "take 192 expected_hex = expected_hex"
    by (simp_all add: expected_lengths)
  show ?thesis
  proof (cases "GetSlowMemSetting p")
    case never_use
    then show ?thesis using loop
      apply (cases "cryptonight_init p 1 1"; cases "alloc_loop p 6 [] ?s1")
      apply (auto simp: self_test_def after_init_def Let_def kernels_match_def memcmp_eq_def len
          split: option.splits if_splits prod.splits)
      done
  next
    case no_mlck
    then show ?thesis  using loop
      apply (cases "cryptonight_init p 1 0"; cases "alloc_loop p 6 [] ?s1")
      apply (auto simp: self_test_def after_init_def Let_def kernels_match_def memcmp_eq_def len
          split: option.splits if_splits prod.splits)
      done
  next
    case print_warning
    then show ?thesis  using loop
      apply (cases "cryptonight_init p 1 1"; cases "alloc_loop p 6 [] ?s1")
      apply (auto simp: self_test_def after_init_def Let_def kernels_match_def memcmp_eq_def len
          split: option.splits if_splits prod.splits)
      done
  next
    case always_use
    then show ?thesis  using loop
      apply (cases "cryptonight_init p 0 0"; cases "alloc_loop p 6 [] ?s1")
      apply (auto simp: self_test_def after_init_def Let_def kernels_match_def memcmp_eq_def len
          split: option.splits if_splits prod.splits)
      done
  next
    case unknown_value
    then show ?thesis by (simp add: self_test_def)
  qed
qed

lemma unknown_value_alloc_null:
  "GetSlowMemSetting p = unknown_value \<Longrightarrow> nth_alloc p 0 s = None"
  by (simp add: nth_alloc_def minethd_alloc_ctx_def)

text \<open>
  C7. \<open>self_test\<close> returns false exactly when \<open>cryptonight_init\<close> returns 0 in a strict
  memory mode (\<open>never_use\<close>, \<open>no_mlck\<close>), or one of the six calls of \<open>minethd_alloc_ctx\<close>
  returns null, or one of the five kernels leaves something else than its expected
  digest. (In the mode \<open>unknown_value\<close>, where \<open>self_test\<close> returns false at once,
  \<open>minethd_alloc_ctx\<close> returns null.) The inputs of the quad, pent and hex kernels are 4,
  5 and 6 copies of the 14 bytes of "This is a test", their expected outputs 4, 5 and 6
  copies of the expected digest of the single kernel.
\<close>

theorem self_test_result:
  "(fst (self_test p out s) = False \<longleftrightarrow>
      (GetSlowMemSetting p = never_use \<and> fst (cryptonight_init p 1 1) = 0)
    \<or> (GetSlowMemSetting p = no_mlck \<and> fst (cryptonight_init p 1 0) = 0)
    \<or> (\<exists>i<6. nth_alloc p i (after_init p s) = None)
    \<or> \<not> kernels_match p out (map (\<lambda>i. nth_alloc p i (after_init p s)) [0..<6]))
 \<and> expected_quad = concat (replicate 4 expected_hash) \<and> quad_input = concat (replicate 4 test_input)
 \<and> expected_pent = concat (replicate 5 expected_hash) \<and> pent_input = concat (replicate 5 test_input)
 \<and> expected_hex = concat (replicate 6 expected_hash) \<and> hex_input = concat (replicate 6 test_input)
 \<and> length test_input = 14"
proof -
  have "\<exists>i<6. nth_alloc p i (after_init p s) = None" if "GetSlowMemSetting p = unknown_value"
    using unknown_value_alloc_null [OF that, of "after_init p s"] by (intro exI [of _ 0]) simp
  then show ?thesis
    using self_test_false_iff [of p out s] expected_copies input_copies by auto
qed

theorem self_test_result_witness:
  "fst (self_test (example_platform unknown_value) (replicate 192 0) \<lparr>heap = 0, console = []\<rparr>) = False
 \<and> fst (self_test (example_platform print_warning) (replicate 192 0) \<lparr>heap = 0, console = []\<rparr>) = True
 \<and> fst (self_test (example_platform never_use) (replicate 192 0) \<lparr>heap = 0, console = []\<rparr>) = False"
proof -
  let ?s = "\<lparr>heap = 0::nat, console = []\<rparr>"
  let ?o = "replicate 192 0 :: u8 list"
  have a: "GetSlowMemSetting (example_platform m) = m" for m
    by (simp add: example_platform_def)
  have al: "minethd_alloc_ctx (example_platform print_warning) \<lparr>heap = h, console = c\<rparr>
      = (Some (Suc h), \<lparr>heap = Suc h, console = c @ [Memory_alloc_failed (Some ''mmap failed'')]\<rparr>)" for h c
    by (simp add: minethd_alloc_ctx_def example_platform_def alloc_ctx_def print_msg_def)
  have ai: "after_init (example_platform print_warning) ?s
      = \<lparr>heap = 0, console = [Memory_init_error ''huge pages are not reserved'']\<rparr>"
    by (simp add: after_init_def example_platform_def print_msg_def)
  have aa: "after_allocs (example_platform print_warning) i \<lparr>heap = h, console = c\<rparr>
      = \<lparr>heap = h + i, console = c @ replicate i (Memory_alloc_failed (Some ''mmap failed''))\<rparr>" for i h c
    by (induction i arbitrary: h c) (simp_all add: al replicate_app_Cons_same)
  have na: "nth_alloc (example_platform print_warning) i \<lparr>heap = h, console = c\<rparr> = Some (Suc (h + i))" for i h c
    by (simp add: nth_alloc_def aa al)
  have n: "\<not> (\<exists>i<6. nth_alloc (example_platform print_warning) i (after_init (example_platform print_warning) ?s) = None)"
    unfolding ai by (simp add: na)
  have k: "kernels_match (example_platform print_warning) ?o ctx" for ctx
    by (simp add: kernels_match_def example_platform_def expected_lengths)
  have i: "fst (cryptonight_init (example_platform m) 1 1) = 0" for m
    by (simp add: example_platform_def)
  have u: "\<exists>i<6. nth_alloc (example_platform unknown_value) i
      (after_init (example_platform unknown_value) ?s) = None"
    using unknown_value_alloc_null [of "example_platform unknown_value"
        "after_init (example_platform unknown_value) ?s"]
    by (intro exI [of _ 0]) (simp add: a)
  show ?thesis
    using self_test_result [of "example_platform unknown_value" ?o ?s]
      self_test_result [of "example_platform print_warning" ?o ?s]
      self_test_result [of "example_platform never_use" ?o ?s]
      n k i u by (simp add: a)
qed

subsection \<open>Telemetry\<close>

lemma calc_loop_walk_samples:
  "calc_loop k stamps counts iTop iTimeNow iLastMilisec i w =
     walk_samples iTimeNow iLastMilisec
       (map (\<lambda>i. (stamps ! bucket_idx k iTop i, counts ! bucket_idx k iTop i)) [i..<iBucketSize k]) w"
proof (induction k stamps counts iTop iTimeNow iLastMilisec i w rule: calc_loop.induct)
  case (1 k stamps counts iTop iTimeNow iLastMilisec i w)
  show ?case
  proof (cases "i < iBucketSize k")
    case True
    then have u: "[i..<iBucketSize k] = i # [i + 1..<iBucketSize k]"
      by (simp add: upt_conv_Cons)
    show ?thesis
      apply (subst calc_loop.simps)
      apply (subst u)
      using True 1 [OF True refl]
      apply (simp add: Let_def)
      done
  next
    case False
    then show ?thesis by (subst calc_loop.simps) simp
  qed
qed

lemma calc_walk_walk_samples:
  "calc_walk k t iTimeNow iLastMilisec iThread =
     walk_samples iTimeNow iLastMilisec (walked k t iThread)
       \<lparr>iEarliestHashCnt = 0, iEarliestStamp = 0, iLastestStamp = 0, iLastestHashCnt = 0,
        bHaveFullSet = False\<rparr>"
  by (simp add: calc_walk_def walked_def calc_loop_walk_samples)

text \<open>Once the latest sample is set, the walk only moves the earliest one.\<close>

lemma walk_samples_latest_set:
  assumes "iLastestStamp w \<noteq> 0"
  shows "walk_samples now win ss w =
     (let P = takeWhile (in_window now win) ss;
          we = (if P = [] then w else w\<lparr>iEarliestStamp := fst (last P), iEarliestHashCnt := snd (last P)\<rparr>)
      in case dropWhile (in_window now win) ss of
           [] \<Rightarrow> we
         | s # _ \<Rightarrow> if fst s = 0 then we else we\<lparr>bHaveFullSet := True\<rparr>)"
  using assms
proof (induction ss arbitrary: w)
  case Nil
  then show ?case by simp
next
  case (Cons s ss)
  show ?case
  proof (cases "in_window now win s")
    case True
    let ?w' = "w\<lparr>iEarliestStamp := fst s, iEarliestHashCnt := snd s\<rparr>"
    have l: "iLastestStamp ?w' \<noteq> 0" using Cons.prems by simp
    have "walk_samples now win (s # ss) w = walk_samples now win ss ?w'"
      using True Cons.prems by (simp add: in_window_def)
    then show ?thesis
      using Cons.IH [OF l] True
      by (cases "dropWhile (in_window now win) ss")
        (simp_all add: Let_def del: dropWhile_eq_Nil_conv)
  next
    case False
    then show ?thesis using Cons.prems by (auto simp: in_window_def Let_def)
  qed
qed

lemma walk_samples_initial:
  "walk_samples now win ss
     \<lparr>iEarliestHashCnt = 0, iEarliestStamp = 0, iLastestStamp = 0, iLastestHashCnt = 0,
      bHaveFullSet = False\<rparr> =
   (case ss of
      [] \<Rightarrow> \<lparr>iEarliestHashCnt = 0, iEarliestStamp = 0, iLastestStamp = 0, iLastestHashCnt = 0,
             bHaveFullSet = False\<rparr>
    | s # _ \<Rightarrow>
        if fst s = 0
        then \<lparr>iEarliestHashCnt = 0, iEarliestStamp = 0, iLastestStamp = 0, iLastestHashCnt = 0,
              bHaveFullSet = False\<rparr>
        else if win < now - fst s
        then \<lparr>iEarliestHashCnt = 0, iEarliestStamp = 0, iLastestStamp = fst s,
              iLastestHashCnt = snd s, bHaveFullSet = True\<rparr>
        else \<lparr>iEarliestHashCnt = snd (earliest_sample now win ss),
              iEarliestStamp = fst (earliest_sample now win ss),
              iLastestStamp = fst (latest_sample now win ss),
              iLastestHashCnt = snd (latest_sample now win ss),
              bHaveFullSet = (case dropWhile (in_window now win) ss of
                                [] \<Rightarrow> False | r # _ \<Rightarrow> fst r \<noteq> 0)\<rparr>)"
proof (cases ss)
  case Nil
  then show ?thesis by simp
next
  case (Cons s ss')
  show ?thesis
  proof (cases "in_window now win s")
    case True
    let ?w = "\<lparr>iEarliestHashCnt = snd s, iEarliestStamp = fst s, iLastestStamp = fst s,
        iLastestHashCnt = snd s, bHaveFullSet = False\<rparr>"
    have l: "iLastestStamp ?w \<noteq> 0" using True by (simp add: in_window_def)
    have tw: "takeWhile (in_window now win) ss = s # takeWhile (in_window now win) ss'"
      and dw: "dropWhile (in_window now win) ss = dropWhile (in_window now win) ss'"
      using True Cons by simp_all
    have s: "fst s \<noteq> 0" "\<not> win < now - fst s"
      using True by (simp_all add: in_window_def)
    have "walk_samples now win ss
        \<lparr>iEarliestHashCnt = 0, iEarliestStamp = 0, iLastestStamp = 0, iLastestHashCnt = 0,
         bHaveFullSet = False\<rparr> = walk_samples now win ss' ?w"
      using s Cons by simp
    then show ?thesis
      unfolding walk_samples_latest_set [OF l, of now win ss'] earliest_sample_def
        latest_sample_def tw dw
      using s Cons
      by (cases "dropWhile (in_window now win) ss'")
        (simp_all add: Let_def del: dropWhile_eq_Nil_conv)
  next
    case False
    then show ?thesis using Cons by (auto simp: in_window_def)
  qed
qed

lemma in_window_takeWhile:
  assumes "takeWhile (in_window now win) ws \<noteq> []"
  shows "fst (latest_sample now win ws) \<noteq> 0" "fst (earliest_sample now win ws) \<noteq> 0"
proof -
  have "hd (takeWhile (in_window now win) ws) \<in> set (takeWhile (in_window now win) ws)"
    "last (takeWhile (in_window now win) ws) \<in> set (takeWhile (in_window now win) ws)"
    using assms by simp_all
  then have "in_window now win (hd (takeWhile (in_window now win) ws))"
    "in_window now win (last (takeWhile (in_window now win) ws))"
    by (auto dest: set_takeWhileD)
  then show "fst (latest_sample now win ws) \<noteq> 0" "fst (earliest_sample now win ws) \<noteq> 0"
    by (simp_all add: in_window_def latest_sample_def earliest_sample_def)
qed

text \<open>
  C4, as the code has it. \<open>calc_telemetry_data\<close> returns NaN exactly when the backward
  walk hits an unwritten slot before it leaves the window, or never meets a sample older
  than the window, or the newest sample is itself older than the window, or the latest
  and the earliest timestamp are equal; otherwise it returns the quotient of
  \<open>latest.count - earliest.count\<close> and \<open>(latest.ts - earliest.ts) / 1000\<close>. The earliest
  sample is the oldest one the walk reads before it leaves the window.
\<close>

theorem calc_telemetry_data_cases:
  "calc_telemetry_data k t iTimeNow iLastMilisec iThread =
     (let ws = walked k t iThread in
      if hits_unwritten iTimeNow iLastMilisec ws
         \<or> never_leaves_window iTimeNow iLastMilisec ws
         \<or> newest_too_old iTimeNow iLastMilisec ws
         \<or> fst (latest_sample iTimeNow iLastMilisec ws) = fst (earliest_sample iTimeNow iLastMilisec ws)
      then NaN
      else Ratio (snd (latest_sample iTimeNow iLastMilisec ws) - snd (earliest_sample iTimeNow iLastMilisec ws))
                 (fst (latest_sample iTimeNow iLastMilisec ws) - fst (earliest_sample iTimeNow iLastMilisec ws)))"
proof (cases "walked k t iThread")
  case Nil
  then show ?thesis
    by (simp add: calc_telemetry_data_def calc_walk_walk_samples never_leaves_window_def)
next
  case (Cons s ss)
  let ?ws = "walked k t iThread"
  show ?thesis
  proof (cases "in_window iTimeNow iLastMilisec s")
    case True
    then have ne: "takeWhile (in_window iTimeNow iLastMilisec) ?ws \<noteq> []"
      using Cons by simp
    have s: "fst s \<noteq> 0" "\<not> iLastMilisec < iTimeNow - fst s"
      using True by (simp_all add: in_window_def)
    show ?thesis
      unfolding calc_telemetry_data_def calc_walk_walk_samples walk_samples_initial
      using in_window_takeWhile [OF ne] s
      unfolding Cons
      by (cases "dropWhile (in_window iTimeNow iLastMilisec) (s # ss)")
        (simp_all add: Let_def hits_unwritten_def never_leaves_window_def newest_too_old_def
          del: dropWhile_eq_Nil_conv dropWhile.simps takeWhile.simps)
  next
    case False
    then show ?thesis
      using Cons
      by (auto simp: calc_telemetry_data_def calc_walk_walk_samples walk_samples_initial
          in_window_def hits_unwritten_def never_leaves_window_def newest_too_old_def)
  qed
qed



theorem calc_telemetry_data_cases_witness:
  "calc_telemetry_data 4 example_ring 1000 20 0 = Ratio 100 5"
proof -
  have w: "walked 4 example_ring 0 = (995, 500) # (990, 400) # (1, 5) # replicate 12 (0, 0)"
    by code_simp
  have c: "\<not> hits_unwritten 1000 20 ((995, 500) # (990, 400) # (1, 5) # replicate 12 (0, 0))"
    "\<not> never_leaves_window 1000 20 ((995, 500) # (990, 400) # (1, 5) # replicate 12 (0, 0))"
    "\<not> newest_too_old 1000 20 ((995, 500) # (990, 400) # (1, 5) # replicate 12 (0, 0))"
    "latest_sample 1000 20 ((995, 500) # (990, 400) # (1, 5) # replicate 12 (0, 0)) = (995, 500)"
    "earliest_sample 1000 20 ((995, 500) # (990, 400) # (1, 5) # replicate 12 (0, 0)) = (990, 400)"
    by code_simp+
  show ?thesis
    using calc_telemetry_data_cases [of 4 example_ring 1000 20 0] c
    unfolding w Let_def by simp
qed

text \<open>
  C4 as stated fails on a ring whose newest sample is older than the window: the walk
  meets no unwritten slot, it does meet a sample older than the window, the latest
  timestamp (1) differs from the earliest one (still 0), and the result is NaN. Read
  with the earliest sample as the first one that is older than the window, it fails on
  the ring with two samples: the latest timestamp is 990 and the first one older than
  the window (20 ms at time 1000) is 1, and the result is NaN, since the code keeps as
  the earliest sample the last one inside the window, which is the latest one here.
\<close>

theorem calc_telemetry_data_newest_too_old_counterexample:
  "calc_telemetry_data 4 one_sample_ring 1000 10 0 = NaN
 \<and> \<not> hits_unwritten 1000 10 (walked 4 one_sample_ring 0)
 \<and> \<not> never_leaves_window 1000 10 (walked 4 one_sample_ring 0)
 \<and> iLastestStamp (calc_walk 4 one_sample_ring 1000 10 0) = 1
 \<and> iEarliestStamp (calc_walk 4 one_sample_ring 1000 10 0) = 0
 \<and> walked 4 one_sample_ring 0 = (1, 5) # replicate 14 (0, 0)
 \<and> calc_telemetry_data 4 two_sample_ring 1000 20 0 = NaN
 \<and> \<not> hits_unwritten 1000 20 (walked 4 two_sample_ring 0)
 \<and> \<not> never_leaves_window 1000 20 (walked 4 two_sample_ring 0)
 \<and> walked 4 two_sample_ring 0 = (990, 400) # (1, 5) # replicate 13 (0, 0)"
  by code_simp

text \<open>After the constructor, row 0 is zero and every other row is as it was allocated.\<close>

lemma fold_telemetry_alloc_row:
  assumes "m \<le> iThd"
  shows "ppTimestamps (fold (telemetry_alloc_row k new_counts new_stamps) [0..<m]
            \<lparr>ppHashCounts = replicate iThd [], ppTimestamps = replicate iThd [],
             iBucketTop = map new_top [0..<iThd]\<rparr>)
          = map (\<lambda>r. if r < m then (if r = 0 then replicate (iBucketSize k) 0 else new_stamps r) else [])
              [0..<iThd]
       \<and> ppHashCounts (fold (telemetry_alloc_row k new_counts new_stamps) [0..<m]
            \<lparr>ppHashCounts = replicate iThd [], ppTimestamps = replicate iThd [],
             iBucketTop = map new_top [0..<iThd]\<rparr>)
          = map (\<lambda>r. if r < m then (if r = 0 then replicate (iBucketSize k) 0 else new_counts r) else [])
              [0..<iThd]"
  using assms
proof (induction m)
  case 0
  show ?case by (simp add: map_replicate_trivial)
next
  case (Suc m)
  let ?t = "fold (telemetry_alloc_row k new_counts new_stamps) [0..<m]
            \<lparr>ppHashCounts = replicate iThd [], ppTimestamps = replicate iThd [],
             iBucketTop = map new_top [0..<iThd]\<rparr>"
  have IH: "ppTimestamps ?t
      = map (\<lambda>r. if r < m then (if r = 0 then replicate (iBucketSize k) 0 else new_stamps r) else [])
          [0..<iThd]"
    "ppHashCounts ?t
      = map (\<lambda>r. if r < m then (if r = 0 then replicate (iBucketSize k) 0 else new_counts r) else [])
          [0..<iThd]"
    using Suc by simp_all
  have step: "fold (telemetry_alloc_row k new_counts new_stamps) [0..<Suc m]
            \<lparr>ppHashCounts = replicate iThd [], ppTimestamps = replicate iThd [],
             iBucketTop = map new_top [0..<iThd]\<rparr> = telemetry_alloc_row k new_counts new_stamps m ?t"
    by simp
  show ?case
    unfolding step using Suc.prems
    by (auto simp: telemetry_alloc_row_def Let_def IH nth_list_update less_Suc_eq
        intro!: nth_equalityI)
qed

lemma telemetry_ctor_rows:
  assumes "r < iThd"
  shows "ppTimestamps (telemetry_ctor k new_counts new_stamps new_top iThd) ! r
           = (if r = 0 then replicate (iBucketSize k) 0 else new_stamps r)"
    and "ppHashCounts (telemetry_ctor k new_counts new_stamps new_top iThd) ! r
           = (if r = 0 then replicate (iBucketSize k) 0 else new_counts r)"
  using fold_telemetry_alloc_row [of iThd iThd k new_counts new_stamps new_top] assms
  by (simp_all add: telemetry_ctor_def)

text \<open>
  C5 does not hold of the constructor: both \<open>memset\<close> calls clear row 0, so every row
  from 1 on keeps what the allocation gave it (lemma \<open>telemetry_ctor_rows\<close>). With two
  threads the rows of thread 1 hold 7 in every slot when the allocation gave that.
\<close>

theorem telemetry_ctor_row_1_not_cleared:
  "ppTimestamps (telemetry_ctor 4 (\<lambda>i. replicate 16 7) (\<lambda>i. replicate 16 7) (\<lambda>i. 9) 2) ! 1
     = replicate 16 7
 \<and> ppHashCounts (telemetry_ctor 4 (\<lambda>i. replicate 16 7) (\<lambda>i. replicate 16 7) (\<lambda>i. 9) 2) ! 1
     = replicate 16 7
 \<and> ppTimestamps (telemetry_ctor 4 (\<lambda>i. replicate 16 7) (\<lambda>i. replicate 16 7) (\<lambda>i. 9) 2) ! 0
     = replicate 16 0
 \<and> ppHashCounts (telemetry_ctor 4 (\<lambda>i. replicate 16 7) (\<lambda>i. replicate 16 7) (\<lambda>i. 9) 2) ! 0
     = replicate 16 0"
  by code_simp

subsection \<open>The workers\<close>


lemma length_le_bytes [simp]: "length (le_bytes n v) = n"
  by (induction n arbitrary: v) simp_all
















lemma trailing_word_lane:
  "read_u64 out (piHashVal i) = trailing_word (lane_digest out i)"
  by (simp add: read_u64_def piHashVal_def trailing_word_def lane_digest_def drop_take add.commute)

lemma fold_check_lane:
  "fold (check_lane N) [0..<m] s =
     s\<lparr>events := events s @ map (lane_event N s) (solving_lanes m (bHashOut s) (iTarget (oWork s)))\<rparr>"
proof (induction m)
  case 0
  show ?case by (simp add: solving_lanes_def)
next
  case (Suc m)
  let ?s' = "s\<lparr>events := events s @ map (lane_event N s) (solving_lanes m (bHashOut s) (iTarget (oWork s)))\<rparr>"
  have "fold (check_lane N) [0..<Suc m] s = check_lane N m (fold (check_lane N) [0..<m] s)"
    by simp
  also have "\<dots> = check_lane N m ?s'"
    by (simp only: Suc)
  also have "\<dots> = s\<lparr>events := events s @ map (lane_event N s)
      (solving_lanes (Suc m) (bHashOut s) (iTarget (oWork s)))\<rparr>"
    by (simp add: check_lane_def push_event_def lane_event_def lane_result_def
        solving_lanes_def trailing_word_lane)
  finally show ?case .
qed


lemma fold_write_nonce_lane_0:
  assumes "lane_0_only N s" "m \<le> N" "0 < m"
  shows "fold write_nonce [0..<m] s =
     s\<lparr>iNonce := iNonce s + 1, bWorkBlobs := write_u32 (bWorkBlobs s) 39 (iNonce s + 1)\<rparr>"
  using assms(2,3)
proof (induction m)
  case 0
  then show ?case by simp
next
  case (Suc m)
  have step: "fold write_nonce [0..<Suc m] s = write_nonce m (fold write_nonce [0..<m] s)"
    by simp
  show ?case
  proof (cases "m = 0")
    case True
    have "piNonce s ! 0 = Some 39"
      using assms(1) Suc.prems by (simp add: lane_0_only_def)
    then show ?thesis using True by (simp add: write_nonce_def)
  next
    case False
    then have p: "piNonce s ! m = None"
      using assms(1) Suc.prems by (simp add: lane_0_only_def)
    have "fold write_nonce [0..<m] s =
        s\<lparr>iNonce := iNonce s + 1, bWorkBlobs := write_u32 (bWorkBlobs s) 39 (iNonce s + 1)\<rparr>"
      using Suc False by simp
    then show ?thesis unfolding step using p by (simp add: write_nonce_def)
  qed
qed




lemma fold_write_nonce_keeps:
  "oWork (fold write_nonce xs s) = oWork s \<and> events (fold write_nonce xs s) = events s
   \<and> piNonce (fold write_nonce xs s) = piNonce s \<and> iJobNo (fold write_nonce xs s) = iJobNo s
   \<and> iCount (fold write_nonce xs s) = iCount s \<and> iHashCount (fold write_nonce xs s) = iHashCount s
   \<and> iTimestamp (fold write_nonce xs s) = iTimestamp s"
  by (induction xs arbitrary: s) (simp_all add: write_nonce_def split: option.splits)

lemma multiway_hash_keeps:
  "oWork (multiway_hash N hash_fn iStamp s) = oWork s"
  "events (multiway_hash N hash_fn iStamp s) = events s"
  "piNonce (multiway_hash N hash_fn iStamp s) = piNonce s"
  "iJobNo (multiway_hash N hash_fn iStamp s) = iJobNo s"
  by (simp_all add: multiway_hash_def Let_def fold_write_nonce_keeps store_stats_def)

lemma multiway_hash_stats:
  "iCount (multiway_hash N hash_fn iStamp s) = iCount s + of_nat N"
  "iHashCount (multiway_hash N hash_fn iStamp s) = (if iCount s AND 0x3 = 0 then iCount s else iHashCount s)"
  "iTimestamp (multiway_hash N hash_fn iStamp s) = (if iCount s AND 0x3 = 0 then iStamp else iTimestamp s)"
  by (simp_all add: multiway_hash_def Let_def fold_write_nonce_keeps store_stats_def)

lemma multiway_round_eq:
  "multiway_round N hash_fn iStamp s =
     (multiway_hash N hash_fn iStamp s)
       \<lparr>events := events s @ map (lane_event N (multiway_hash N hash_fn iStamp s))
          (solving_lanes N (bHashOut (multiway_hash N hash_fn iStamp s)) (iTarget (oWork s)))\<rparr>"
  by (simp add: multiway_round_def fold_check_lane multiway_hash_keeps)

lemma work_hash_keeps:
  "iTarget (oWork (work_hash p iStamp s)) = iTarget (oWork s)"
  "iPoolId (oWork (work_hash p iStamp s)) = iPoolId (oWork s)"
  "events (work_hash p iStamp s) = events s"
  by (simp_all add: work_hash_def Let_def store_stats_def)

lemma trailing_word_32: "read_u64 d 24 = trailing_word d"
  by (simp add: trailing_word_def read_u64_def)

lemma solving_lanes_iff:
  "i \<in> set (solving_lanes N out target) \<longleftrightarrow> i < N \<and> trailing_word (lane_digest out i) < target"
  by (auto simp: solving_lanes_def)

text \<open>
  C1. In every round of a worker of any width, the events pushed are, in lane order,
  those of the lanes whose digest has a trailing little-endian 64-bit word strictly below
  the target of the current work item: a lane is among them if and only if its word is
  below the target. With target 0 nothing is pushed, and a word equal to the target is
  not a solution.
\<close>

theorem solution_iff_below_target:
  "events (multiway_round N hash_fn iStamp s) =
     events s @ map (lane_event N (multiway_hash N hash_fn iStamp s))
       (solving_lanes N (bHashOut (multiway_hash N hash_fn iStamp s)) (iTarget (oWork s)))
 \<and> (\<forall>i<N. i \<in> set (solving_lanes N out target) \<longleftrightarrow> trailing_word (lane_digest out i) < target)
 \<and> (\<forall>i<N. bResult (ev_result (lane_event N s' i)) = lane_digest (bHashOut s') i)
 \<and> solving_lanes N out 0 = []
 \<and> (\<forall>i. trailing_word (lane_digest out i) = target \<longrightarrow> i \<notin> set (solving_lanes N out target))
 \<and> events (work_round p iStamp w) =
     events w @ (if trailing_word (bResult (result (work_hash p iStamp w))) < iTarget (oWork w)
                 then [\<lparr>ev_result = result (work_hash p iStamp w), ev_iPoolId = iPoolId (oWork w)\<rparr>]
                 else [])
 \<and> (iTarget (oWork w) = 0 \<longrightarrow> events (work_round p iStamp w) = events w)
 \<and> (trailing_word (bResult (result (work_hash p iStamp w))) = iTarget (oWork w)
      \<longrightarrow> events (work_round p iStamp w) = events w)"
proof -
  have "solving_lanes N out 0 = []"
    by (simp add: solving_lanes_def)
  moreover have w: "events (work_round p iStamp w) =
     events w @ (if trailing_word (bResult (result (work_hash p iStamp w))) < iTarget (oWork w)
                 then [\<lparr>ev_result = result (work_hash p iStamp w), ev_iPoolId = iPoolId (oWork w)\<rparr>]
                 else [])"
    by (simp add: work_round_def Let_def push_event_def work_hash_keeps trailing_word_32)
  moreover have "\<forall>i<N. bResult (ev_result (lane_event N s' i)) = lane_digest (bHashOut s') i"
    by (simp add: lane_event_def lane_result_def lane_digest_def)
  ultimately show ?thesis
    by (simp add: multiway_round_eq solving_lanes_iff)
qed

theorem solution_iff_below_target_witness:
  "events (multiway_round 2 (example_kernel [5, 10]) 7 (example_multiway 2 10))
     = [lane_event 2 (multiway_hash 2 (example_kernel [5, 10]) 7 (example_multiway 2 10)) 0]
 \<and> 0 \<in> set (solving_lanes 2 (example_kernel [5, 10] [] 76 (replicate 256 0) []) 10)
 \<and> 1 \<notin> set (solving_lanes 2 (example_kernel [5, 10] [] 76 (replicate 256 0) []) 10)
 \<and> events (work_round (example_platform always_use) 7 (example_single 0)) = []"
proof -
  let ?k = "example_kernel [5, 10]"
  let ?out = "example_kernel [5, 10] [] 76 (replicate 256 0) []"
  have a: "solving_lanes 2 (bHashOut (multiway_hash 2 ?k 7 (example_multiway 2 10)))
      (iTarget (oWork (example_multiway 2 10))) = [0]"
    by code_simp
  have b: "events (example_multiway 2 10) = []" "events (example_single 0) = []"
    "iTarget (oWork (example_single 0)) = 0"
    by code_simp+
  have c: "trailing_word (lane_digest ?out 0) = 5" "trailing_word (lane_digest ?out (Suc 0)) = 10"
    by code_simp+
  note t = solution_iff_below_target [of 2 ?k 7 "example_multiway 2 10" ?out 10
        "example_multiway 2 10" "example_platform always_use" "example_single 0"]
  have e: "events (multiway_round 2 ?k 7 (example_multiway 2 10))
      = [lane_event 2 (multiway_hash 2 ?k 7 (example_multiway 2 10)) 0]"
    using t by (simp add: a b)
  have l: "\<forall>i<2. i \<in> set (solving_lanes 2 ?out 10) \<longleftrightarrow> trailing_word (lane_digest ?out i) < 10"
    using t by blast
  have l0: "0 \<in> set (solving_lanes 2 ?out 10)"
    using l [rule_format, of 0] by (simp add: c)
  have l1: "1 \<notin> set (solving_lanes 2 ?out 10)"
    using l [rule_format, of 1] by (simp add: c)
  have w: "events (work_round (example_platform always_use) 7 (example_single 0)) = []"
    using t by (simp add: b)
  show ?thesis using e l0 l1 w by simp
qed

lemma fold_refresh_lane:
  assumes "length (piNonce s) = N" "m \<le> N"
  shows "oWork (fold refresh_lane [0..<m] s) = oWork s
       \<and> piNonce (fold refresh_lane [0..<m] s) =
           map (\<lambda>i. if i < m then Some (unat (iWorkSize (oWork s)) * i + 39) else piNonce s ! i) [0..<N]"
  using assms(2)
proof (induction m)
  case 0
  show ?case using assms(1) map_nth [of "piNonce s"] by simp
next
  case (Suc m)
  then have IH: "oWork (fold refresh_lane [0..<m] s) = oWork s"
    "piNonce (fold refresh_lane [0..<m] s) =
       map (\<lambda>i. if i < m then Some (unat (iWorkSize (oWork s)) * i + 39) else piNonce s ! i) [0..<N]"
    by simp_all
  have step: "fold refresh_lane [0..<Suc m] s = refresh_lane m (fold refresh_lane [0..<m] s)"
    by simp
  have "piNonce (refresh_lane m (fold refresh_lane [0..<m] s)) =
      map (\<lambda>i. if i < Suc m then Some (unat (iWorkSize (oWork s)) * i + 39) else piNonce s ! i) [0..<N]"
    using Suc.prems
    by (intro nth_equalityI) (auto simp: refresh_lane_def Let_def IH nth_list_update less_Suc_eq)
  then show ?case unfolding step by (simp add: refresh_lane_def Let_def IH(1))
qed

lemma lanes_set_refresh:
  "length (piNonce s) = N \<Longrightarrow> lanes_set N (refresh_blobs N s)"
  using fold_refresh_lane [of s N N] by (simp add: lanes_set_def refresh_blobs_def)

lemma lanes_set_consume:
  "length (piNonce s) = N \<Longrightarrow> lanes_set N (fst (multiway_consume N g s))"
  by (simp add: multiway_consume_def consume_work_def lanes_set_refresh)





lemma multiway_round_lane_0:
  assumes "lane_0_only N s" "0 < N"
  shows "iNonce (multiway_round N hash_fn iStamp s) = iNonce s + 1"
    and "bWorkBlobs (multiway_round N hash_fn iStamp s) = write_u32 (bWorkBlobs s) 39 (iNonce s + 1)"
    and "lane_0_only N (multiway_round N hash_fn iStamp s)"
    and "iJobNo (multiway_round N hash_fn iStamp s) = iJobNo s"
    and "oWork (multiway_round N hash_fn iStamp s) = oWork s"
proof -
  have l: "lane_0_only N (s'\<lparr>iCount := c\<rparr>)" if "lane_0_only N s'" for s' c
    using that by (simp add: lane_0_only_def)
  have l': "lane_0_only N (store_stats c t s)" for c t
    using assms(1) by (simp add: lane_0_only_def store_stats_def)
  have h: "iNonce (multiway_hash N hash_fn iStamp s) = iNonce s + 1"
    "bWorkBlobs (multiway_hash N hash_fn iStamp s) = write_u32 (bWorkBlobs s) 39 (iNonce s + 1)"
    using fold_write_nonce_lane_0 [OF l [OF assms(1)] order_refl assms(2)]
      fold_write_nonce_lane_0 [OF l [OF l'] order_refl assms(2)]
    by (simp_all add: multiway_hash_def Let_def store_stats_def)
  show "iNonce (multiway_round N hash_fn iStamp s) = iNonce s + 1"
    "bWorkBlobs (multiway_round N hash_fn iStamp s) = write_u32 (bWorkBlobs s) 39 (iNonce s + 1)"
    "lane_0_only N (multiway_round N hash_fn iStamp s)"
    "iJobNo (multiway_round N hash_fn iStamp s) = iJobNo s"
    "oWork (multiway_round N hash_fn iStamp s) = oWork s"
    using h assms(1) by (simp_all add: multiway_round_eq multiway_hash_keeps lane_0_only_def)
qed

lemma write_u32_39_outside:
  "43 \<le> length b \<Longrightarrow> length (write_u32 b 39 v) = length b
     \<and> take 39 (write_u32 b 39 v) = take 39 b \<and> drop 43 (write_u32 b 39 v) = drop 43 b"
  by (simp add: write_u32_def)

lemma multiway_inner_lane_0:
  assumes "0 < N"
  shows "lane_0_only N s \<Longrightarrow> \<forall>(job_no, iStamp) \<in> set obs. job_no = iJobNo s \<Longrightarrow>
         43 \<le> length (bWorkBlobs s) \<Longrightarrow>
         lane_0_only N (fst (multiway_inner N hash_fn obs s))
       \<and> iNonce (fst (multiway_inner N hash_fn obs s)) = iNonce s + of_nat (length obs)
       \<and> length (bWorkBlobs (fst (multiway_inner N hash_fn obs s))) = length (bWorkBlobs s)
       \<and> take 39 (bWorkBlobs (fst (multiway_inner N hash_fn obs s))) = take 39 (bWorkBlobs s)
       \<and> drop 43 (bWorkBlobs (fst (multiway_inner N hash_fn obs s))) = drop 43 (bWorkBlobs s)
       \<and> oWork (fst (multiway_inner N hash_fn obs s)) = oWork s"
proof (induction obs arbitrary: s)
  case Nil
  then show ?case by simp
next
  case (Cons ob obs)
  obtain job_no iStamp where ob: "ob = (job_no, iStamp)" by (cases ob)
  let ?s1 = "multiway_round N hash_fn iStamp s"
  note r = multiway_round_lane_0 [OF Cons.prems(1) assms, of hash_fn iStamp]
  have j: "job_no = iJobNo s" using Cons.prems(2) ob by simp
  have o: "\<forall>(job_no, iStamp) \<in> set obs. job_no = iJobNo ?s1"
    using Cons.prems(2) r(4) by simp
  note w = write_u32_39_outside [OF Cons.prems(3), of "iNonce s + 1"]
  have len: "43 \<le> length (bWorkBlobs ?s1)"
    using Cons.prems(3) w by (simp add: r(2))
  show ?case
    using Cons.IH [OF r(3) o len] j w
    by (simp add: ob r(1,2,5) ac_simps)
qed

text \<open>
  C9. When the main loop of \<open>multiway_work_main\<close> is entered only the nonce pointer of lane
  0 is set (to byte 39 of the local buffer) and the others are null. On a first work
  item that is not stalled, for as long as the loaded job number stays the initial one,
  the pointers stay so, each round stores a nonce into lane 0 only and advances \<open>iNonce\<close>
  by 1: after \<open>n\<close> rounds \<open>iNonce\<close> is the start nonce plus \<open>n\<close> and the buffer differs from
  the initial one in the bytes 39 to 42 at most. The refresh after the first
  \<open>consume_work\<close> sets the pointers of all lanes.
\<close>

theorem lane_0_only_until_refresh:
  assumes "0 < N" "\<not> bStall pWork" "\<forall>(job_no, iStamp) \<in> set obs. job_no = 0"
    and "43 \<le> length blobs"
  shows "piNonce (multiway_init N pWork cs hash_out blobs nonce) = Some 39 # replicate (N - 1) None
       \<and> piNonce (fst (multiway_pass N hash_fn calc_nicehash_nonce calc_start_nonce obs
                    (multiway_init N pWork cs hash_out blobs nonce)))
           = Some 39 # replicate (N - 1) None
       \<and> iNonce (fst (multiway_pass N hash_fn calc_nicehash_nonce calc_start_nonce obs
                    (multiway_init N pWork cs hash_out blobs nonce)))
           = start_nonce calc_nicehash_nonce calc_start_nonce pWork (read_u32 blobs 39)
             + of_nat (length obs)
       \<and> take 39 (bWorkBlobs (fst (multiway_pass N hash_fn calc_nicehash_nonce calc_start_nonce obs
                    (multiway_init N pWork cs hash_out blobs nonce)))) = take 39 blobs
       \<and> drop 43 (bWorkBlobs (fst (multiway_pass N hash_fn calc_nicehash_nonce calc_start_nonce obs
                    (multiway_init N pWork cs hash_out blobs nonce)))) = drop 43 blobs
       \<and> (\<forall>s. lane_0_only N s \<longrightarrow>
            iNonce (multiway_round N hash_fn iStamp s) = iNonce s + 1
          \<and> bWorkBlobs (multiway_round N hash_fn iStamp s) = write_u32 (bWorkBlobs s) 39 (iNonce s + 1)
          \<and> lane_0_only N (multiway_round N hash_fn iStamp s))
       \<and> lanes_set N (fst (multiway_consume N g
            (fst (multiway_pass N hash_fn calc_nicehash_nonce calc_start_nonce obs
                    (multiway_init N pWork cs hash_out blobs nonce)))))"
proof -
  let ?s0 = "multiway_init N pWork cs hash_out blobs nonce"
  let ?b = "start_nonce calc_nicehash_nonce calc_start_nonce pWork (read_u32 blobs 39)"
  let ?s1 = "?s0\<lparr>iNonce := ?b\<rparr>"
  have p0: "map (\<lambda>i. if i = 0 then Some 39 else None) [0..<N] = Some 39 # replicate (N - 1) None"
    using assms(1) by (intro nth_equalityI) (auto simp: nth_Cons')
  have l0: "lane_0_only N ?s1"
    by (simp add: lane_0_only_def multiway_init_def)
  have f: "piNonce ?s0 ! 0 = Some 39" "bWorkBlobs ?s0 = blobs" "oWork ?s0 = pWork" "iJobNo ?s1 = 0"
    "bWorkBlobs ?s1 = blobs" "iNonce ?s1 = ?b"
    using assms(1) by (simp_all add: multiway_init_def)
  have pass: "multiway_pass N hash_fn calc_nicehash_nonce calc_start_nonce obs ?s0
      = multiway_inner N hash_fn obs ?s1"
    using assms(2) by (simp add: multiway_pass_def f)
  have o: "\<forall>(job_no, iStamp) \<in> set obs. job_no = iJobNo ?s1"
    using assms(3) f(4) by simp
  have len: "43 \<le> length (bWorkBlobs ?s1)" using assms(4) f(5) by simp
  note i = multiway_inner_lane_0 [OF assms(1) l0 o len, of hash_fn, unfolded f(5,6)]
  have pn: "piNonce (fst (multiway_inner N hash_fn obs ?s1)) = Some 39 # replicate (N - 1) None"
    using i p0 by (simp add: lane_0_only_def)
  have "length (piNonce (fst (multiway_inner N hash_fn obs ?s1))) = N"
    using assms(1) by (simp add: pn)
  then have c: "lanes_set N (fst (multiway_consume N g (fst (multiway_inner N hash_fn obs ?s1))))"
    by (rule lanes_set_consume)
  have "piNonce ?s0 = Some 39 # replicate (N - 1) None"
    using p0 by (simp add: multiway_init_def)
  then show ?thesis
    unfolding pass using i pn c multiway_round_lane_0 [OF _ assms(1)]
    by simp
qed

theorem lane_0_only_until_refresh_witness:
  "piNonce (fst (multiway_pass 2 (example_kernel [0, 0]) (\<lambda>start resume. start) (\<lambda>resume. 100)
       [(0, 7), (0, 8), (0, 9)] (example_multiway 2 0xFFFFFFFFFFFFFFFF))) = [Some 39, None]
 \<and> iNonce (fst (multiway_pass 2 (example_kernel [0, 0]) (\<lambda>start resume. start) (\<lambda>resume. 100)
       [(0, 7), (0, 8), (0, 9)] (example_multiway 2 0xFFFFFFFFFFFFFFFF))) = 103"
proof -
  have h: "(0::nat) < 2" "\<not> bStall (example_work 0xFFFFFFFFFFFFFFFF False)"
    "\<forall>(job_no, iStamp) \<in> set [(0::u64, 7::u64), (0, 8), (0, 9)]. job_no = 0"
    "43 \<le> length (replicate 896 (0::u8))"
    by (simp_all add: example_work_def)
  have b: "start_nonce (\<lambda>start resume. start) (\<lambda>resume. 100) (example_work 0xFFFFFFFFFFFFFFFF False)
      (read_u32 (replicate 896 0) 39) = 100"
    by (simp add: start_nonce_def example_work_def)
  show ?thesis
    using lane_0_only_until_refresh [OF h, of "map Some [1..<Suc 2]" "replicate 256 0" 100
        "example_kernel [0, 0]" "\<lambda>start resume. start" "\<lambda>resume. 100"]
    unfolding b example_multiway_def by simp
qed

lemma and_3_dvd: "(x::u64) AND 3 = 0 \<longleftrightarrow> 4 dvd unat x"
proof -
  have "x AND 3 = take_bit 2 x"
    by (simp add: take_bit_eq_mask mask_eq_exp_minus_1)
  moreover have "take_bit 2 x = 0 \<longleftrightarrow> unat (take_bit 2 x) = 0"
    by (simp add: unsigned_eq_0_iff)
  moreover have "unat (take_bit 2 x) = unat x mod 4"
    by (subst unsigned_take_bit_eq) (simp add: take_bit_eq_mod)
  ultimately show ?thesis by (simp add: dvd_eq_mod_eq_0)
qed

lemma and_15_dvd: "(x::u64) AND 0xF = 0 \<longleftrightarrow> 16 dvd unat x"
proof -
  have "x AND 0xF = take_bit 4 x"
    by (simp add: take_bit_eq_mask mask_eq_exp_minus_1)
  moreover have "take_bit 4 x = 0 \<longleftrightarrow> unat (take_bit 4 x) = 0"
    by (simp add: unsigned_eq_0_iff)
  moreover have "unat (take_bit 4 x) = unat x mod 16"
    by (subst unsigned_take_bit_eq) (simp add: take_bit_eq_mod)
  ultimately show ?thesis by (simp add: dvd_eq_mod_eq_0)
qed

lemma dvd_unat_add:
  assumes "d dvd (2::nat) ^ 64"
  shows "d dvd unat ((c::u64) + of_nat m) \<longleftrightarrow> d dvd unat c + m"
proof -
  have "unat (c + of_nat m) = (unat c + m) mod 2 ^ 64"
    by (simp add: unat_word_ariths unat_of_nat mod_simps)
  then show ?thesis using assms by (simp add: dvd_mod_iff)
qed

lemma cadence_periods:
  fixes c :: u64
  shows "c AND 0xF = 0 \<Longrightarrow> (c + of_nat j) AND 0xF = 0 \<longleftrightarrow> 16 dvd j"
    and "c AND 3 = 0 \<Longrightarrow> (c + of_nat (2 * j)) AND 3 = 0 \<longleftrightarrow> 2 dvd j"
    and "c AND 3 = 0 \<Longrightarrow> (c + of_nat (4 * j)) AND 3 = 0"
    and "c AND 3 = 0 \<Longrightarrow> (c + of_nat (5 * j)) AND 3 = 0 \<longleftrightarrow> 4 dvd j"
    and "c AND 3 = 0 \<Longrightarrow> (c + of_nat (6 * j)) AND 3 = 0 \<longleftrightarrow> 2 dvd j"
proof -
  have d: "(16::nat) dvd 2 ^ 64" "(4::nat) dvd 2 ^ 64" by simp_all
  show "c AND 0xF = 0 \<Longrightarrow> (c + of_nat j) AND 0xF = 0 \<longleftrightarrow> 16 dvd j"
    unfolding and_15_dvd dvd_unat_add [OF d(1)] by presburger
  show "c AND 3 = 0 \<Longrightarrow> (c + of_nat (2 * j)) AND 3 = 0 \<longleftrightarrow> 2 dvd j"
    unfolding and_3_dvd dvd_unat_add [OF d(2)] by presburger
  show "c AND 3 = 0 \<Longrightarrow> (c + of_nat (4 * j)) AND 3 = 0"
    unfolding and_3_dvd dvd_unat_add [OF d(2)] by presburger
  show "c AND 3 = 0 \<Longrightarrow> (c + of_nat (5 * j)) AND 3 = 0 \<longleftrightarrow> 4 dvd j"
    unfolding and_3_dvd dvd_unat_add [OF d(2)] by presburger
  show "c AND 3 = 0 \<Longrightarrow> (c + of_nat (6 * j)) AND 3 = 0 \<longleftrightarrow> 2 dvd j"
    unfolding and_3_dvd dvd_unat_add [OF d(2)] by presburger
qed

lemma work_round_stats:
  "w_iCount (work_round p iStamp w) = w_iCount w + 1"
  "iHashCount (work_round p iStamp w) = (if w_iCount w AND 0xF = 0 then w_iCount w else iHashCount w)"
  "iTimestamp (work_round p iStamp w) = (if w_iCount w AND 0xF = 0 then iStamp else iTimestamp w)"
  "iJobNo (work_round p iStamp w) = iJobNo w"
  by (simp_all add: work_round_def work_hash_def Let_def store_stats_def push_event_def)

lemma multiway_round_stats:
  "iCount (multiway_round N hash_fn iStamp s) = iCount s + of_nat N"
  "iHashCount (multiway_round N hash_fn iStamp s) = (if iCount s AND 0x3 = 0 then iCount s else iHashCount s)"
  "iTimestamp (multiway_round N hash_fn iStamp s) = (if iCount s AND 0x3 = 0 then iStamp else iTimestamp s)"
  "iJobNo (multiway_round N hash_fn iStamp s) = iJobNo s"
  by (simp_all add: multiway_round_eq multiway_hash_stats multiway_hash_keeps)

lemma work_inner_count:
  "\<forall>(job_no, iStamp) \<in> set obs. job_no = iJobNo w \<Longrightarrow>
     w_iCount (fst (work_inner p obs w)) = w_iCount w + of_nat (length obs)"
proof (induction obs arbitrary: w)
  case Nil
  show ?case by simp
next
  case (Cons ob obs)
  obtain job_no iStamp where ob: "ob = (job_no, iStamp)" by (cases ob)
  have "\<forall>(j, t) \<in> set obs. j = iJobNo (work_round p iStamp w)"
    using Cons.prems by (simp add: work_round_stats)
  from Cons.IH [OF this] Cons.prems show ?case
    by (simp add: ob work_round_stats ac_simps)
qed

lemma multiway_inner_count:
  "\<forall>(job_no, iStamp) \<in> set obs. job_no = iJobNo s \<Longrightarrow>
     iCount (fst (multiway_inner N hash_fn obs s)) = iCount s + of_nat (N * length obs)"
proof (induction obs arbitrary: s)
  case Nil
  show ?case by simp
next
  case (Cons ob obs)
  obtain job_no iStamp where ob: "ob = (job_no, iStamp)" by (cases ob)
  have "\<forall>(j, t) \<in> set obs. j = iJobNo (multiway_round N hash_fn iStamp s)"
    using Cons.prems by (simp add: multiway_round_stats)
  from Cons.IH [OF this] Cons.prems show ?case
    by (simp add: ob multiway_round_stats ac_simps)
qed

text \<open>
  The cadence of the samples. The single-way worker stores a sample in exactly the rounds
  that start with \<open>iCount & 0xF == 0\<close> and advances \<open>iCount\<close> by 1; a multiway worker stores
  one in exactly the rounds that start with \<open>iCount & 0x3 == 0\<close> and advances \<open>iCount\<close> by
  N. Counted from a round that samples, with count \<open>c\<close>, the round \<open>j\<close> rounds later
  samples if and only if 16 divides \<open>j\<close> for width 1, 2 divides \<open>j\<close> for widths 2 and 6,
  4 divides \<open>j\<close> for width 5, and always for width 4: samples are 16 hashes apart for
  width 1, 4 for widths 2 and 4, 20 for width 5 and 12 for width 6.
\<close>

lemma telemetry_sampling_cadence:
  "(iHashCount (work_round p iStamp w), iTimestamp (work_round p iStamp w)) =
      (if w_iCount w AND 0xF = 0 then (w_iCount w, iStamp) else (iHashCount w, iTimestamp w))
 \<and> w_iCount (work_round p iStamp w) = w_iCount w + 1
 \<and> ((\<forall>(job_no, iStamp) \<in> set obs. job_no = iJobNo w) \<longrightarrow>
       w_iCount (fst (work_inner p obs w)) = w_iCount w + of_nat (length obs))
 \<and> (iHashCount (multiway_round N hash_fn iStamp s), iTimestamp (multiway_round N hash_fn iStamp s)) =
      (if iCount s AND 0x3 = 0 then (iCount s, iStamp) else (iHashCount s, iTimestamp s))
 \<and> iCount (multiway_round N hash_fn iStamp s) = iCount s + of_nat N
 \<and> ((\<forall>(job_no, iStamp) \<in> set obs. job_no = iJobNo s) \<longrightarrow>
       iCount (fst (multiway_inner N hash_fn obs s)) = iCount s + of_nat (N * length obs))
 \<and> ((c::u64) AND 0xF = 0 \<longrightarrow> ((c + of_nat j) AND 0xF = 0 \<longleftrightarrow> 16 dvd j))
 \<and> (c AND 0x3 = 0 \<longrightarrow> ((c + of_nat (2 * j)) AND 0x3 = 0 \<longleftrightarrow> 2 dvd j))
 \<and> (c AND 0x3 = 0 \<longrightarrow> (c + of_nat (4 * j)) AND 0x3 = 0)
 \<and> (c AND 0x3 = 0 \<longrightarrow> ((c + of_nat (5 * j)) AND 0x3 = 0 \<longleftrightarrow> 4 dvd j))
 \<and> (c AND 0x3 = 0 \<longrightarrow> ((c + of_nat (6 * j)) AND 0x3 = 0 \<longleftrightarrow> 2 dvd j))"
  using cadence_periods [of c j] work_inner_count [of obs w p] multiway_inner_count [of obs s N hash_fn]
  by (simp add: work_round_stats multiway_round_stats)

lemma telemetry_sampling_cadence_example:
  "iCount (multiway_round 5 (example_kernel []) 7 (example_multiway 5 0)) = 5
 \<and> iHashCount (multiway_round 5 (example_kernel []) 7 (example_multiway 5 0)) = 0
 \<and> iTimestamp (multiway_round 5 (example_kernel []) 7 (example_multiway 5 0)) = 7
 \<and> iCount (fst (multiway_inner 5 (example_kernel []) [(0, 7), (0, 8), (0, 9), (0, 10)]
       (example_multiway 5 0))) = 20
 \<and> w_iCount (fst (work_inner (example_platform always_use) [(0, 7), (0, 8)] (example_single 0))) = 2"
proof -
  have f: "iCount (example_multiway 5 0) = 0" "iJobNo (example_multiway 5 0) = 0"
    "w_iCount (example_single 0) = 0" "iJobNo (example_single 0) = 0"
    by code_simp+
  have o: "\<forall>(job_no, iStamp) \<in> set [(0::u64, 7::u64), (0, 8)]. job_no = iJobNo (example_single 0)"
    "\<forall>(job_no, iStamp) \<in> set [(0::u64, 7::u64), (0, 8), (0, 9), (0, 10)]. job_no = iJobNo (example_multiway 5 0)"
    by (simp_all add: f)
  note t1 = telemetry_sampling_cadence [of "example_platform always_use" 7 "example_single 0"
      "[(0, 7), (0, 8)]" 5 "example_kernel []" "example_multiway 5 0" 0 4]
  note t2 = telemetry_sampling_cadence [of "example_platform always_use" 7 "example_single 0"
      "[(0, 7), (0, 8), (0, 9), (0, 10)]" 5 "example_kernel []" "example_multiway 5 0" 0 4]
  have a: "w_iCount (fst (work_inner (example_platform always_use) [(0, 7), (0, 8)] (example_single 0))) = 2"
    using t1 [THEN conjunct2, THEN conjunct2, THEN conjunct1] o(1) by (simp only: f) simp
  have b: "(iHashCount (multiway_round 5 (example_kernel []) 7 (example_multiway 5 0)),
            iTimestamp (multiway_round 5 (example_kernel []) 7 (example_multiway 5 0))) = (0, 7)"
    using t2 [THEN conjunct2, THEN conjunct2, THEN conjunct2, THEN conjunct1] by (simp add: f)
  have c: "iCount (multiway_round 5 (example_kernel []) 7 (example_multiway 5 0)) = 5"
    using t2 [THEN conjunct2, THEN conjunct2, THEN conjunct2, THEN conjunct2, THEN conjunct1]
    by (simp add: f)
  have d: "iCount (fst (multiway_inner 5 (example_kernel []) [(0, 7), (0, 8), (0, 9), (0, 10)]
       (example_multiway 5 0))) = 20"
    using t2 [THEN conjunct2, THEN conjunct2, THEN conjunct2, THEN conjunct2, THEN conjunct2,
        THEN conjunct1] o(2) by (simp only: f) simp
  show ?thesis using a b c d by simp
qed

text \<open>
  C6 does not hold of the code. The masks are the ones it names, but the multiway count
  advances by N, so a width-4 worker, whose count is always a multiple of 4, samples in
  every round: the first round stores the sample (0 hashes, stamp 11) and the second one
  the sample (4 hashes, stamp 22), 4 hashes apart and not about 16, nor the \<open>N*4\<close> hashes
  of the comment at the test.
\<close>

theorem quad_samples_every_round:
  "iHashCount (multiway_round 4 (example_kernel []) 11 (example_multiway 4 0)) = 0
 \<and> iTimestamp (multiway_round 4 (example_kernel []) 11 (example_multiway 4 0)) = 11
 \<and> iHashCount (multiway_round 4 (example_kernel []) 22
      (multiway_round 4 (example_kernel []) 11 (example_multiway 4 0))) = 4
 \<and> iTimestamp (multiway_round 4 (example_kernel []) 22
      (multiway_round 4 (example_kernel []) 11 (example_multiway 4 0))) = 22"
  by code_simp

lemma switch_work_eq:
  "switch_work pWork loads g =
     (case dropWhile (\<lambda>c. c < iThreadCount g) loads of
        [] \<Rightarrow> None
      | c # rest \<Rightarrow>
          Some (concat (map (\<lambda>v. [Load_iConsumeCnt v, Sleep_ms 100])
                         (takeWhile (\<lambda>c. c < iThreadCount g) loads))
                @ [Load_iConsumeCnt c, Store_oGlobalWork pWork, Store_iConsumeCnt 0, Inc_iGlobalJobNo],
                g\<lparr>oGlobalWork := pWork, iConsumeCnt := 0, iGlobalJobNo := iGlobalJobNo g + 1\<rparr>))"
proof (induction loads)
  case Nil
  show ?case by simp
next
  case (Cons c loads)
  show ?case
  proof (cases "c < iThreadCount g")
    case True
    then show ?thesis
      using Cons
      by (cases "dropWhile (\<lambda>c. c < iThreadCount g) loads")
        (simp_all del: dropWhile_eq_Nil_conv)
  next
    case False
    then show ?thesis by simp
  qed
qed

text \<open>
  C3. \<open>switch_work\<close> loads \<open>iConsumeCnt\<close> and sleeps 100 ms for as long as the load is
  below \<open>iThreadCount\<close>; after the first load that is not, it stores the new work into
  \<open>oGlobalWork\<close>, then stores 0 into \<open>iConsumeCnt\<close>, then increments \<open>iGlobalJobNo\<close> by one,
  in this order. As long as \<open>iConsumeCnt\<close> never exceeds \<open>iThreadCount\<close>, the load that ends
  the wait is equal to \<open>iThreadCount\<close>. It returns as soon as one load is not below
  \<open>iThreadCount\<close>.
\<close>

theorem switch_work_order:
  "switch_work pWork loads g =
     (case dropWhile (\<lambda>c. c < iThreadCount g) loads of
        [] \<Rightarrow> None
      | c # rest \<Rightarrow>
          Some (concat (map (\<lambda>v. [Load_iConsumeCnt v, Sleep_ms 100])
                         (takeWhile (\<lambda>c. c < iThreadCount g) loads))
                @ [Load_iConsumeCnt c, Store_oGlobalWork pWork, Store_iConsumeCnt 0, Inc_iGlobalJobNo],
                g\<lparr>oGlobalWork := pWork, iConsumeCnt := 0, iGlobalJobNo := iGlobalJobNo g + 1\<rparr>))
 \<and> ((\<forall>c \<in> set loads. c \<le> iThreadCount g) \<longrightarrow>
      (\<forall>c rest. dropWhile (\<lambda>c. c < iThreadCount g) loads = c # rest \<longrightarrow> c = iThreadCount g))
 \<and> ((\<exists>c \<in> set loads. \<not> c < iThreadCount g) \<longrightarrow> switch_work pWork loads g \<noteq> None)"
proof -
  have "c = iThreadCount g"
    if "\<forall>c \<in> set loads. c \<le> iThreadCount g" "dropWhile (\<lambda>c. c < iThreadCount g) loads = c # rest"
    for c rest
  proof -
    have "c \<in> set loads"
      using that(2) set_dropWhileD [of c "\<lambda>c. c < iThreadCount g" loads] by simp
    moreover have "\<not> c < iThreadCount g"
      using that(2) hd_dropWhile [of "\<lambda>c. c < iThreadCount g" loads] by auto
    ultimately show ?thesis using that(1) by auto
  qed
  moreover have "switch_work pWork loads g \<noteq> None" if "\<exists>c \<in> set loads. \<not> c < iThreadCount g"
  proof -
    have "dropWhile (\<lambda>c. c < iThreadCount g) loads \<noteq> []"
      using that by (simp add: dropWhile_eq_Nil_conv)
    then show ?thesis
      by (cases "dropWhile (\<lambda>c. c < iThreadCount g) loads")
        (simp_all add: switch_work_eq del: dropWhile_eq_Nil_conv)
  qed
  ultimately show ?thesis using switch_work_eq [of pWork loads g] by blast
qed

theorem switch_work_order_witness:
  "switch_work (example_work 10 False) [0, 1, 2] (example_shared 0\<lparr>iThreadCount := 2\<rparr>) =
     Some ([Load_iConsumeCnt 0, Sleep_ms 100, Load_iConsumeCnt 1, Sleep_ms 100, Load_iConsumeCnt 2,
            Store_oGlobalWork (example_work 10 False), Store_iConsumeCnt 0, Inc_iGlobalJobNo],
           \<lparr>oGlobalWork = example_work 10 False, iGlobalJobNo = 2, iConsumeCnt = 0, iThreadCount = 2\<rparr>)"
proof -
  let ?g = "example_shared 0\<lparr>iThreadCount := 2\<rparr>"
  have g: "iThreadCount ?g = 2" "iGlobalJobNo ?g = 1"
    by (simp_all add: example_shared_def)
  have d: "dropWhile (\<lambda>c. c < iThreadCount ?g) [0, 1, 2] = [2]"
    "takeWhile (\<lambda>c. c < iThreadCount ?g) [0, 1, 2] = [0, 1]"
    "\<forall>c \<in> set [0, 1, 2]. c \<le> iThreadCount ?g"
    unfolding g by simp_all
  show ?thesis
    using switch_work_order [of "example_work 10 False" "[0, 1, 2]" ?g, THEN conjunct1]
    unfolding d by (simp add: example_shared_def)
qed

end
